theory Spec2Isabelle
  imports Complex_Main
begin

section \<open>JavaScript numbers\<close>

text \<open>
  A JavaScript number is modelled as a real number or one of the three special values
  of IEEE arithmetic. Finite values are exact reals: rounding, overflow to an infinity and
  the sign of zero are not modelled. The special values arise as they do in the engine:
  from a division by zero, from the logarithm of zero or of a negative number, and from
  arithmetic on \<open>undefined\<close>. The rounding of the engine is the subject of the section on
  double-precision arithmetic, which repeats the vectorizer and the similarity on doubles.
\<close>

datatype jsnum = Fin real | PInf | MInf | NaN

fun jadd :: "jsnum \<Rightarrow> jsnum \<Rightarrow> jsnum" where
  "jadd NaN _ = NaN"
| "jadd _ NaN = NaN"
| "jadd (Fin a) (Fin b) = Fin (a + b)"
| "jadd PInf MInf = NaN"
| "jadd MInf PInf = NaN"
| "jadd PInf _ = PInf"
| "jadd _ PInf = PInf"
| "jadd MInf _ = MInf"
| "jadd _ MInf = MInf"

fun jneg :: "jsnum \<Rightarrow> jsnum" where
  "jneg (Fin a) = Fin (- a)"
| "jneg PInf = MInf"
| "jneg MInf = PInf"
| "jneg NaN = NaN"

definition jsub :: "jsnum \<Rightarrow> jsnum \<Rightarrow> jsnum" where
  "jsub a b = jadd a (jneg b)"

text \<open>The sign of an infinite product or quotient: \<open>True\<close> is positive.\<close>

definition signedInf :: "bool \<Rightarrow> jsnum" where
  "signedInf pos = (if pos then PInf else MInf)"

fun jmul :: "jsnum \<Rightarrow> jsnum \<Rightarrow> jsnum" where
  "jmul NaN _ = NaN"
| "jmul _ NaN = NaN"
| "jmul (Fin a) (Fin b) = Fin (a * b)"
| "jmul (Fin a) PInf = (if a = 0 then NaN else signedInf (0 < a))"
| "jmul (Fin a) MInf = (if a = 0 then NaN else signedInf (a < 0))"
| "jmul PInf (Fin b) = (if b = 0 then NaN else signedInf (0 < b))"
| "jmul MInf (Fin b) = (if b = 0 then NaN else signedInf (b < 0))"
| "jmul PInf PInf = PInf"
| "jmul MInf MInf = PInf"
| "jmul PInf MInf = MInf"
| "jmul MInf PInf = MInf"

fun jdiv :: "jsnum \<Rightarrow> jsnum \<Rightarrow> jsnum" where
  "jdiv NaN _ = NaN"
| "jdiv _ NaN = NaN"
| "jdiv (Fin a) (Fin b) =
     (if b \<noteq> 0 then Fin (a / b)
      else if a = 0 then NaN
      else signedInf (0 < a))"
| "jdiv (Fin a) PInf = Fin 0"
| "jdiv (Fin a) MInf = Fin 0"
| "jdiv PInf (Fin b) = signedInf (0 \<le> b)"
| "jdiv MInf (Fin b) = signedInf (b < 0)"
| "jdiv PInf PInf = NaN"
| "jdiv PInf MInf = NaN"
| "jdiv MInf PInf = NaN"
| "jdiv MInf MInf = NaN"

text \<open>\<open>Math.sqrt\<close> and \<open>Math.log\<close>.\<close>

fun jsqrt :: "jsnum \<Rightarrow> jsnum" where
  "jsqrt (Fin a) = (if 0 \<le> a then Fin (sqrt a) else NaN)"
| "jsqrt PInf = PInf"
| "jsqrt MInf = NaN"
| "jsqrt NaN = NaN"

fun jlog :: "jsnum \<Rightarrow> jsnum" where
  "jlog (Fin a) = (if 0 < a then Fin (ln a) else if a = 0 then MInf else NaN)"
| "jlog PInf = PInf"
| "jlog MInf = NaN"
| "jlog NaN = NaN"

text \<open>The relational operator \<open>a > b\<close>: false whenever an operand is \<open>NaN\<close>.\<close>

fun jgt :: "jsnum \<Rightarrow> jsnum \<Rightarrow> bool" where
  "jgt NaN _ = False"
| "jgt _ NaN = False"
| "jgt (Fin a) (Fin b) = (b < a)"
| "jgt PInf PInf = False"
| "jgt PInf _ = True"
| "jgt _ PInf = False"
| "jgt MInf _ = False"
| "jgt _ MInf = True"

text \<open>A number counts as false in a condition when it is zero or \<open>NaN\<close>.\<close>

definition numFalsy :: "jsnum \<Rightarrow> bool" where
  "numFalsy x = (x = Fin 0 \<or> x = NaN)"

fun isFinite :: "jsnum \<Rightarrow> bool" where
  "isFinite (Fin _) = True"
| "isFinite _ = False"

text \<open>
  Reading \<open>vec[i]\<close> inside an arithmetic expression: an index past the end of the
  array reads \<open>undefined\<close>, which the arithmetic operators convert to \<open>NaN\<close>.
\<close>

definition numAt :: "jsnum list \<Rightarrow> nat \<Rightarrow> jsnum" where
  "numAt vec i = (if i < length vec then vec ! i else NaN)"

section \<open>Values, errors and the platform\<close>

text \<open>
  A JavaScript string is a sequence of UTF-16 code units, here a list of natural numbers.
\<close>

type_synonym jsstring = "nat list"

text \<open>An ASCII string literal of the source as code units.\<close>

definition ascii :: "string \<Rightarrow> jsstring" where
  "ascii s = map of_char s"

text \<open>
  A thrown error. \<open>Error m\<close> is an error object whose \<open>message\<close> is \<open>m\<close>;
  \<open>TypeError\<close> is the engine's error for a property read on \<open>null\<close> or
  \<open>undefined\<close>, for a call of something that is not a function and for a value that
  cannot be converted to a primitive; \<open>URIError\<close> is the error of
  \<open>encodeURIComponent\<close>. The code never reads the message of the last two.
\<close>

datatype error = Error jsstring | TypeError | URIError

text \<open>
  A value delivered by \<open>response.json()\<close> or \<open>JSON.parse\<close>. \<open>JObj\<close> lists the own
  properties of an object. \<open>undefined\<close> is not such a value: an expression that may
  be \<open>undefined\<close> has type \<open>json option\<close>, with \<open>None\<close> for \<open>undefined\<close>.
\<close>

datatype json =
    JNull
  | JBool bool
  | JNum real
  | JStr jsstring
  | JArr "json list"
  | JObj "(jsstring \<times> json) list"

text \<open>
  What the code takes from the engine and the browser rather than computing itself:
  \<^item> \<open>toLowerCase\<close>: the Unicode case mapping of \<open>String.prototype.toLowerCase\<close>;
  \<^item> \<open>domText v\<close>: the value of \<open>tempDiv.textContent || tempDiv.innerText || ""\<close>
    in \<open>cleanHtml\<close>, after \<open>v\<close> was assigned to \<open>innerHTML\<close> of a new element and
    the script and style elements were removed, or the error thrown on the way;
  \<^item> \<open>toLocaleDateString v\<close>: \<open>new Date(v).toLocaleDateString('bg-BG')\<close>, or the
    error thrown on the way (the conversion of an object to a date value can throw);
  \<^item> \<open>jsonParse v\<close>: \<open>JSON.parse(v)\<close>, or the error it throws.
\<close>

record platform =
  toLowerCase :: "jsstring \<Rightarrow> jsstring"
  domText :: "json \<Rightarrow> error + jsstring"
  toLocaleDateString :: "json \<Rightarrow> error + jsstring"
  jsonParse :: "json \<Rightarrow> error + json"

text \<open>Sequencing of steps that may throw: the first error ends the computation.\<close>

definition bindE :: "error + 'a \<Rightarrow> ('a \<Rightarrow> error + 'b) \<Rightarrow> error + 'b" where
  "bindE m f = (case m of Inl e \<Rightarrow> Inl e | Inr x \<Rightarrow> f x)"

text \<open>\<open>xs.map(f)\<close> with a callback that may throw.\<close>

fun mapE :: "('a \<Rightarrow> error + 'b) \<Rightarrow> 'a list \<Rightarrow> error + 'b list" where
  "mapE f [] = Inr []"
| "mapE f (x # xs) = bindE (f x) (\<lambda>y. bindE (mapE f xs) (\<lambda>ys. Inr (y # ys)))"

text \<open>A value in a condition (\<open>!v\<close>, \<open>v || d\<close>, \<open>v ? a : b\<close>).\<close>

fun truthy :: "json \<Rightarrow> bool" where
  "truthy JNull = False"
| "truthy (JBool b) = b"
| "truthy (JNum r) = (r \<noteq> 0)"
| "truthy (JStr s) = (s \<noteq> [])"
| "truthy (JArr _) = True"
| "truthy (JObj _) = True"

definition truthyOpt :: "json option \<Rightarrow> bool" where
  "truthyOpt v = (case v of None \<Rightarrow> False | Some j \<Rightarrow> truthy j)"

text \<open>\<open>v || ''\<close>\<close>

definition orEmpty :: "json option \<Rightarrow> json" where
  "orEmpty v = (case v of None \<Rightarrow> JStr [] | Some j \<Rightarrow> if truthy j then j else JStr [])"

text \<open>
  The property read \<open>v.name\<close> for the names the code reads from fetched values
  (\<open>title\<close>, \<open>content\<close>, \<open>rendered\<close>, \<open>contents\<close>): a property of an object
  if the object has it, \<open>undefined\<close> on any other value but \<open>null\<close>, where the read throws.
\<close>

fun getProp :: "json \<Rightarrow> jsstring \<Rightarrow> error + json option" where
  "getProp JNull name = Inl TypeError"
| "getProp (JObj props) name = Inr (map_of props name)"
| "getProp _ name = Inr None"

text \<open>The optional chain \<open>v?.name\<close>: \<open>undefined\<close> when \<open>v\<close> is \<open>null\<close> or \<open>undefined\<close>.\<close>

definition optChain :: "json option \<Rightarrow> jsstring \<Rightarrow> json option" where
  "optChain v name =
     (case v of
        None \<Rightarrow> None
      | Some JNull \<Rightarrow> None
      | Some j \<Rightarrow> (case getProp j name of Inl _ \<Rightarrow> None | Inr r \<Rightarrow> r))"

text \<open>
  \<open>v.length === 0\<close> for a value that is not \<open>null\<close>: the length of an array or a
  string, the property \<open>length\<close> of an object, \<open>undefined\<close> on a number or a boolean.
\<close>

fun lengthIsZero :: "json \<Rightarrow> bool" where
  "lengthIsZero (JArr xs) = (xs = [])"
| "lengthIsZero (JStr s) = (s = [])"
| "lengthIsZero (JObj props) = (map_of props (ascii ''length'') = Some (JNum 0))"
| "lengthIsZero _ = False"

text \<open>The decimal digits of a number in a template literal.\<close>

fun showNat :: "nat \<Rightarrow> jsstring" where
  "showNat n = (if n < 10 then [48 + n] else showNat (n div 10) @ [48 + n mod 10])"

declare showNat.simps [simp del]

section \<open>Strings and the text normalizer\<close>

text \<open>
  The character classes of the regular expressions in \<open>preprocessText\<close>: \<open>\s\<close>
  (white space and line terminators), \<open>\w\<close> (ASCII letters, digits and the underscore)
  and the Cyrillic block, code units 1024 (hex 0400) to 1279 (hex 04FF).
\<close>

definition isSpace :: "nat \<Rightarrow> bool" where
  "isSpace c = (c \<in> {9, 10, 11, 12, 13, 32, 160, 5760, 8232, 8233, 8239, 8287, 12288, 65279}
                \<or> (8192 \<le> c \<and> c \<le> 8202))"

definition isWordChar :: "nat \<Rightarrow> bool" where
  "isWordChar c = ((48 \<le> c \<and> c \<le> 57) \<or> (65 \<le> c \<and> c \<le> 90) \<or> c = 95
                   \<or> (97 \<le> c \<and> c \<le> 122))"

definition isCyrillic :: "nat \<Rightarrow> bool" where
  "isCyrillic c = (1024 \<le> c \<and> c \<le> 1279)"

text \<open>\<open>.replace(/\s+/g, ' ')\<close>: every maximal run of white space becomes one space.\<close>

function collapseSpaces :: "jsstring \<Rightarrow> jsstring" where
  "collapseSpaces [] = []"
| "collapseSpaces (c # cs) =
     (if isSpace c then 32 # collapseSpaces (dropWhile isSpace cs)
      else c # collapseSpaces cs)"
  by pat_completeness auto
termination
  by (relation "measure length") (auto simp: le_imp_less_Suc length_dropWhile_le)

text \<open>\<open>.trim()\<close>\<close>

definition trim :: "jsstring \<Rightarrow> jsstring" where
  "trim s = rev (dropWhile isSpace (rev (dropWhile isSpace s)))"

text \<open>
  \<open>.split(/\s+/)\<close>: the pieces between maximal runs of white space; the empty string
  splits into one empty piece. The first argument is the piece being read, reversed.
\<close>

function splitSpaces :: "jsstring \<Rightarrow> jsstring \<Rightarrow> jsstring list" where
  "splitSpaces cur [] = [rev cur]"
| "splitSpaces cur (c # cs) =
     (if isSpace c then rev cur # splitSpaces [] (dropWhile isSpace cs)
      else splitSpaces (c # cur) cs)"
  by pat_completeness auto
termination
  by (relation "measure (\<lambda>(cur, s). length s)") (auto simp: le_imp_less_Suc length_dropWhile_le)

text \<open>\<open>preprocessText(text)\<close>\<close>

definition preprocessText :: "'p platform_scheme \<Rightarrow> jsstring \<Rightarrow> jsstring list" where
  "preprocessText P text =
     filter (\<lambda>word. length word > 2)
       (splitSpaces []
         (trim
           (collapseSpaces
             (map (\<lambda>c. if isCyrillic c \<or> isWordChar c \<or> isSpace c then c else 32)
               (toLowerCase P text)))))"

section \<open>The vectorizer\<close>

text \<open>
  \<open>new Set(processedDocs.flat())\<close> read back with \<open>Array.from\<close>: the distinct tokens
  in the order of their first occurrence.
\<close>

definition setInsert :: "'a \<Rightarrow> 'a list \<Rightarrow> 'a list" where
  "setInsert w s = (if w \<in> set s then s else s @ [w])"

definition vocabularyOf :: "'a list list \<Rightarrow> 'a list" where
  "vocabularyOf processedDocs = fold setInsert (concat processedDocs) []"

text \<open>
  The \<open>idfMap\<close> built by the first \<open>forEach\<close>, as the list of its entries, and
  \<open>idfMap.get(word)\<close> used as a factor: a missing key reads \<open>undefined\<close>, that is
  \<open>NaN\<close> in the product.
\<close>

definition docFreq :: "'a list list \<Rightarrow> 'a \<Rightarrow> nat" where
  "docFreq processedDocs word = length (filter (\<lambda>doc. word \<in> set doc) processedDocs)"

definition idfMapOf :: "'a list list \<Rightarrow> 'a list \<Rightarrow> ('a \<times> jsnum) list" where
  "idfMapOf processedDocs vocabArray =
     map (\<lambda>word. (word,
            jlog (jdiv (Fin (real (length processedDocs)))
                       (Fin (real (1 + docFreq processedDocs word))))))
         vocabArray"

definition idfGet :: "('a \<times> jsnum) list \<Rightarrow> 'a \<Rightarrow> jsnum" where
  "idfGet idfMap word = (case map_of idfMap word of Some v \<Rightarrow> v | None \<Rightarrow> NaN)"

text \<open>
  The \<open>wordCount\<close> map of one document:
  \<open>words.forEach(word => wordCount.set(word, (wordCount.get(word) || 0) + 1))\<close>.
\<close>

definition wordCountOf :: "'a list \<Rightarrow> ('a \<rightharpoonup> nat)" where
  "wordCountOf words =
     fold (\<lambda>word m. m(word \<mapsto> (case m word of None \<Rightarrow> 0 | Some c \<Rightarrow> c) + 1)) words Map.empty"

text \<open>
  The vector of one document: an array of zeros of the vocabulary's length, in which the
  second \<open>forEach\<close> overwrites the positions of the words the document has.
\<close>

definition vectorOf :: "'a list \<Rightarrow> ('a \<times> jsnum) list \<Rightarrow> 'a list \<Rightarrow> jsnum list" where
  "vectorOf vocabArray idfMap words =
     (let wordCount = wordCountOf words
      in map (\<lambda>word.
                case wordCount word of
                  Some c \<Rightarrow>
                    (let tf = jdiv (Fin (real c)) (Fin (real (length words)))
                     in jmul tf (idfGet idfMap word))
                | None \<Rightarrow> Fin 0)
             vocabArray)"

text \<open>The part of \<open>createTfIdfVectors\<close> after tokenization.\<close>

definition tfIdfOfTokens :: "'a list list \<Rightarrow> jsnum list list \<times> 'a list" where
  "tfIdfOfTokens processedDocs =
     (let vocabArray = vocabularyOf processedDocs;
          idfMap = idfMapOf processedDocs vocabArray;
          vectors = map (vectorOf vocabArray idfMap) processedDocs
      in (vectors, vocabArray))"

text \<open>\<open>createTfIdfVectors(documents)\<close>: the pair \<open>{ vectors, vocabulary }\<close>.\<close>

definition createTfIdfVectors ::
  "'p platform_scheme \<Rightarrow> jsstring list \<Rightarrow> jsnum list list \<times> jsstring list" where
  "createTfIdfVectors P documents = tfIdfOfTokens (map (preprocessText P) documents)"

section \<open>Cosine similarity\<close>

text \<open>
  One pass of the loop body of \<open>cosineSimilarity\<close> at index \<open>i\<close>, on the triple
  \<open>(dotProduct, normA, normB)\<close>.
\<close>

definition cosineStep ::
  "jsnum list \<Rightarrow> jsnum list \<Rightarrow> nat \<Rightarrow> jsnum \<times> jsnum \<times> jsnum \<Rightarrow> jsnum \<times> jsnum \<times> jsnum" where
  "cosineStep vecA vecB i acc =
     (case acc of (dotProduct, normA, normB) \<Rightarrow>
        (jadd dotProduct (jmul (numAt vecA i) (numAt vecB i)),
         jadd normA (jmul (numAt vecA i) (numAt vecA i)),
         jadd normB (jmul (numAt vecB i) (numAt vecB i))))"

text \<open>\<open>cosineSimilarity(vecA, vecB)\<close>: the loop runs over the indices of \<open>vecA\<close>.\<close>

definition cosineSimilarity :: "jsnum list \<Rightarrow> jsnum list \<Rightarrow> jsnum" where
  "cosineSimilarity vecA vecB =
     (case fold (cosineStep vecA vecB) [0..<length vecA] (Fin 0, Fin 0, Fin 0) of
        (dotProduct, normA, normB) \<Rightarrow>
          if normA = Fin 0 \<or> normB = Fin 0 then Fin 0
          else jdiv dotProduct (jmul (jsqrt normA) (jsqrt normB)))"

section \<open>Markup cleaning\<close>

text \<open>
  \<open>s.replace(/pat/g, rep)\<close> for a literal pattern: matches are found left to right and
  do not overlap. The counter is the number of code units of the current match still to skip.
\<close>

fun replaceFrom :: "jsstring \<Rightarrow> jsstring \<Rightarrow> nat \<Rightarrow> jsstring \<Rightarrow> jsstring" where
  "replaceFrom pat rep k [] = []"
| "replaceFrom pat rep (Suc k) (c # cs) = replaceFrom pat rep k cs"
| "replaceFrom pat rep 0 (c # cs) =
     (if pat \<noteq> [] \<and> take (length pat) (c # cs) = pat
      then rep @ replaceFrom pat rep (length pat - 1) cs
      else c # replaceFrom pat rep 0 cs)"

definition replaceAll :: "jsstring \<Rightarrow> jsstring \<Rightarrow> jsstring \<Rightarrow> jsstring" where
  "replaceAll pat rep s = replaceFrom pat rep 0 s"

text \<open>\<open>cleanHtml(htmlText)\<close>\<close>

definition cleanHtml :: "'p platform_scheme \<Rightarrow> json \<Rightarrow> error + jsstring" where
  "cleanHtml P htmlText =
     (if \<not> truthy htmlText then Inr []
      else bindE (domText P htmlText) (\<lambda>text.
        Inr (trim (collapseSpaces
          (replaceAll (ascii ''&hellip;'') (ascii ''...'')
          (replaceAll (ascii ''&#039;'') [39]
          (replaceAll (ascii ''&quot;'') [34]
          (replaceAll (ascii ''&gt;'') (ascii ''>'')
          (replaceAll (ascii ''&lt;'') (ascii ''<'')
          (replaceAll (ascii ''&amp;'') (ascii ''&'')
          (replaceAll (ascii ''&nbsp;'') (ascii '' '') text)))))))))))"

text \<open>\<open>this.cleanHtml(v?.rendered || '')\<close>, for \<open>v\<close> the title, content or excerpt.\<close>

definition cleanRendered :: "'p platform_scheme \<Rightarrow> json option \<Rightarrow> error + jsstring" where
  "cleanRendered P v = cleanHtml P (orEmpty (optChain v (ascii ''rendered'')))"

section \<open>The ranker\<close>

text \<open>An element of \<open>similarities\<close>; \<open>post\<close> is \<open>posts[index]\<close>.\<close>

record scored =
  index :: nat
  similarity :: jsnum
  post :: "json option"

text \<open>
  An element of the ranker's result, \<open>{ ...item.post, similarity_score: item.similarity }\<close>:
  the own properties copied from the post, and the score.
\<close>

record ranked =
  props :: "(jsstring \<times> json) list"
  similarity_score :: jsnum

text \<open>
  The properties an object spread copies: those of an object, the indexed elements of an
  array or a string, none of any other value.
\<close>

fun spreadProps :: "json option \<Rightarrow> (jsstring \<times> json) list" where
  "spreadProps (Some (JObj ps)) = ps"
| "spreadProps (Some (JArr xs)) = zip (map showNat [0..<length xs]) xs"
| "spreadProps (Some (JStr s)) = zip (map showNat [0..<length s]) (map (\<lambda>c. JStr [c]) s)"
| "spreadProps _ = []"

text \<open>
  \<open>Array.prototype.sort\<close> with a comparator, as a stable insertion sort: \<open>x\<close> stays in
  front of \<open>y\<close> unless the comparator's result for \<open>(x, y)\<close> is greater than zero.
  The language requires the sort to be stable, so for a comparator that orders its
  arguments consistently every engine returns this list.
\<close>

fun insertBy :: "('a \<Rightarrow> 'a \<Rightarrow> jsnum) \<Rightarrow> 'a \<Rightarrow> 'a list \<Rightarrow> 'a list" where
  "insertBy cmp x [] = [x]"
| "insertBy cmp x (y # ys) =
     (if jgt (cmp x y) (Fin 0) then y # insertBy cmp x ys else x # y # ys)"

definition sortBy :: "('a \<Rightarrow> 'a \<Rightarrow> jsnum) \<Rightarrow> 'a list \<Rightarrow> 'a list" where
  "sortBy cmp xs = foldr (insertBy cmp) xs []"

text \<open>
  \<open>xs.slice(0, k)\<close> for an integer \<open>k\<close>: a negative \<open>k\<close> counts from the end of the array.
\<close>

definition sliceTo :: "int \<Rightarrow> 'a list \<Rightarrow> 'a list" where
  "sliceTo k xs = (if k < 0 then take (nat (int (length xs) + k)) xs else take (nat k) xs)"

text \<open>The text of one post: \<open>`${title} ${content}`\<close>.\<close>

definition postText :: "'p platform_scheme \<Rightarrow> json \<Rightarrow> error + jsstring" where
  "postText P p =
     bindE (getProp p (ascii ''title'')) (\<lambda>t.
     bindE (cleanRendered P t) (\<lambda>title.
     bindE (getProp p (ascii ''content'')) (\<lambda>c.
     bindE (cleanRendered P c) (\<lambda>content.
     Inr (title @ [32] @ content)))))"

text \<open>The array \<open>similarities\<close> before it is sorted.\<close>

definition similaritiesOf :: "jsnum list \<Rightarrow> jsnum list list \<Rightarrow> json list \<Rightarrow> scored list" where
  "similaritiesOf queryVector vectors posts =
     map (\<lambda>i. \<lparr> index = i,
                similarity = cosineSimilarity queryVector (vectors ! i),
                post = (if i < length posts then Some (posts ! i) else None) \<rparr>)
         [0..<length vectors]"

text \<open>
  The chain after the sort: the sorted array, filtered, cut to \<open>topK\<close>, before the final
  \<open>map\<close> drops the index.
\<close>

definition rankedItems :: "int \<Rightarrow> scored list \<Rightarrow> scored list" where
  "rankedItems topK similarities =
     sliceTo topK
       (filter (\<lambda>item. jgt (similarity item) (Fin (1 / 100)))
         (sortBy (\<lambda>a b. jsub (similarity b) (similarity a)) similarities))"

definition toRanked :: "scored \<Rightarrow> ranked" where
  "toRanked item = \<lparr> props = spreadProps (post item), similarity_score = similarity item \<rparr>"

text \<open>The \<open>try\<close> block of \<open>rankRelevantPosts\<close>, for \<open>posts\<close> that passed the first check.\<close>

definition rankTry :: "'p platform_scheme \<Rightarrow> jsstring \<Rightarrow> json \<Rightarrow> int \<Rightarrow> error + ranked list" where
  "rankTry P query posts topK =
     (case posts of
        JArr ps \<Rightarrow>
          bindE (mapE (postText P) ps) (\<lambda>postTexts.
            let allTexts = postTexts @ [query];
                vectors = fst (createTfIdfVectors P allTexts)
            in (case vectors of
                  [] \<Rightarrow> Inl TypeError
                | _ \<Rightarrow>
                  let queryVector = last vectors;
                      similarities = similaritiesOf queryVector (butlast vectors) ps
                  in Inr (map toRanked (rankedItems topK similarities))))
      | _ \<Rightarrow> Inl TypeError)"

text \<open>
  \<open>rankRelevantPosts(query, posts, topK = 5)\<close>; \<open>None\<close> is an omitted \<open>topK\<close>. The
  \<open>catch\<close> turns every error of the \<open>try\<close> block into the empty result.
\<close>

definition rankRelevantPosts ::
  "'p platform_scheme \<Rightarrow> jsstring \<Rightarrow> json \<Rightarrow> int option \<Rightarrow> ranked list" where
  "rankRelevantPosts P query posts topKArg =
     (let topK = (case topKArg of None \<Rightarrow> 5 | Some k \<Rightarrow> k)
      in if \<not> truthy posts \<or> lengthIsZero posts then []
         else (case rankTry P query posts topK of
                 Inl error \<Rightarrow> []
               | Inr result \<Rightarrow> result))"

section \<open>The response composer\<close>

text \<open>
  The fixed texts of the source, as UTF-16 code units (the source writes them in Bulgarian).
\<close>

text \<open>The answer of \<open>generateResponse\<close> for an empty ranking ("no relevant information found").\<close>

definition msgNoRelevant :: jsstring where
  "msgNoRelevant =
     [1047, 1072, 32, 1089, 1098, 1078, 1072, 1083, 1077, 1085, 1080, 1077, 32, 1085, 1077,
      32, 1085, 1072, 1084, 1077, 1088, 1080, 1093, 32, 1088, 1077, 1083, 1077, 1074, 1072,
      1085, 1090, 1085, 1072, 32, 1080, 1085, 1092, 1086, 1088, 1084, 1072, 1094, 1080,
      1103, 32, 1087, 1086, 32, 1090, 1086, 1079, 1080, 32, 1074, 1098, 1087, 1088, 1086,
      1089, 32, 1074, 32, 1087, 1091, 1073, 1083, 1080, 1082, 1072, 1094, 1080, 1080, 1090,
      1077, 32, 1085, 1072, 32, 80, 111, 115, 116, 86, 97, 105, 46, 99, 111, 109, 46, 32,
      1052, 1086, 1083, 1103, 44, 32, 1086, 1087, 1080, 1090, 1072, 1081, 1090, 1077, 32,
      1089, 32, 1088, 1072, 1079, 1083, 1080, 1095, 1085, 1080, 32, 1082, 1083, 1102, 1095,
      1086, 1074, 1080, 32, 1076, 1091, 1084, 1080, 46]"

text \<open>The banner of a composed answer, before and after the number of posts.\<close>

definition msgBannerPrefix :: jsstring where
  "msgBannerPrefix =
     [55357, 56589, 32, 1053, 1072, 1084, 1077, 1088, 1080, 1093, 32]"

definition msgBannerSuffix :: jsstring where
  "msgBannerSuffix =
     [32, 1088, 1077, 1083, 1077, 1074, 1072, 1085, 1090, 1085, 1080, 32, 1087, 1091, 1073,
      1083, 1080, 1082, 1072, 1094, 1080, 1080, 44, 32, 1082, 1086, 1080, 1090, 1086, 32,
      1084, 1086, 1078, 1077, 32, 1076, 1072, 32, 1086, 1090, 1075, 1086, 1074, 1086, 1088,
      1103, 1090, 32, 1085, 1072, 32, 1074, 1098, 1087, 1088, 1086, 1089, 1072, 32, 1074,
      1080, 58]"

text \<open>The placeholder for an empty excerpt ("no summary available").\<close>

definition msgNoSummary :: jsstring where
  "msgNoSummary =
     [1053, 1103, 1084, 1072, 32, 1085, 1072, 1083, 1080, 1095, 1085, 1086, 32, 1088, 1077,
      1079, 1102, 1084, 1077, 46]"

text \<open>The last part of a composed answer, starting with a line feed.\<close>

definition msgFooter :: jsstring where
  "msgFooter =
     [10, 55357, 56538, 32, 1047, 1072, 32, 1087, 1098, 1083, 1085, 1072, 32, 1080, 1085,
      1092, 1086, 1088, 1084, 1072, 1094, 1080, 1103, 44, 32, 1084, 1086, 1083, 1103, 32,
      1087, 1086, 1089, 1077, 1090, 1077, 1090, 1077, 32, 1083, 1080, 1085, 1082, 1086,
      1074, 1077, 1090, 1077, 32, 1082, 1098, 1084, 32, 1087, 1091, 1073, 1083, 1080, 1082,
      1072, 1094, 1080, 1080, 1090, 1077, 46]"

text \<open>The guidance for a question that is too short ("ask a more specific question").\<close>

definition msgTooShort :: jsstring where
  "msgTooShort =
     [1052, 1086, 1083, 1103, 44, 32, 1079, 1072, 1076, 1072, 1081, 1090, 1077, 32, 1087,
      1086, 45, 1082, 1086, 1085, 1082, 1088, 1077, 1090, 1077, 1085, 32, 1074, 1098, 1087,
      1088, 1086, 1089, 32, 40, 1087, 1086, 1085, 1077, 32, 51, 32, 1089, 1080, 1084, 1074,
      1086, 1083, 1072, 41, 46]"

text \<open>The answer when retrieval finds nothing ("no matching documents").\<close>

definition msgNoPosts :: jsstring where
  "msgNoPosts =
     [1053, 1077, 32, 1086, 1090, 1082, 1088, 1080, 1093, 32, 1087, 1091, 1073, 1083, 1080,
      1082, 1072, 1094, 1080, 1080, 44, 32, 1089, 1074, 1098, 1088, 1079, 1072, 1085, 1080,
      32, 1089, 32, 1074, 1072, 1096, 1077, 1090, 1086, 32, 1090, 1098, 1088, 1089, 1077,
      1085, 1077, 46]"

text \<open>The answer of the orchestrator's \<open>catch\<close> ("a technical error occurred").\<close>

definition msgTechnical :: jsstring where
  "msgTechnical =
     [1042, 1098, 1079, 1085, 1080, 1082, 1085, 1072, 32, 1090, 1077, 1093, 1085, 1080,
      1095, 1077, 1089, 1082, 1072, 32, 1075, 1088, 1077, 1096, 1082, 1072, 32, 1087, 1088,
      1080, 32, 1090, 1098, 1088, 1089, 1077, 1085, 1077, 1090, 1086, 46, 32, 1052, 1086,
      1083, 1103, 44, 32, 1086, 1087, 1080, 1090, 1072, 1081, 1090, 1077, 32, 1086, 1090,
      1085, 1086, 1074, 1086, 46]"

text \<open>The message of the error \<open>searchPosts\<close> throws ("cannot search at the moment").\<close>

definition msgSearchFailed :: jsstring where
  "msgSearchFailed =
     [1053, 1077, 32, 1084, 1086, 1075, 1072, 32, 1076, 1072, 32, 1080, 1079, 1074, 1098,
      1088, 1096, 1072, 32, 1090, 1098, 1088, 1089, 1077, 1085, 1077, 32, 1074, 32, 1084,
      1086, 1084, 1077, 1085, 1090, 1072, 46]"

text \<open>The message of the error thrown inside \<open>searchWithCorsProxy\<close> for an empty envelope.\<close>

definition msgEmptyProxy :: jsstring where
  "msgEmptyProxy =
     [1055, 1088, 1072, 1079, 1077, 1085, 32, 1086, 1090, 1075, 1086, 1074, 1086, 1088, 32,
      1086, 1090, 32, 67, 79, 82, 83, 32, 112, 114, 111, 120, 121]"

record source =
  src_title :: jsstring
  src_link :: json
  src_similarity :: jsnum
  src_date :: jsstring

record response =
  answer :: jsstring
  sources :: "source list"

text \<open>\<open>parts.join('\n')\<close>\<close>

fun joinLines :: "jsstring list \<Rightarrow> jsstring" where
  "joinLines [] = []"
| "joinLines [p] = p"
| "joinLines (p # q # ps) = p @ [10] @ joinLines (q # ps)"

text \<open>
  One element of \<open>sources\<close>. The fields \<open>title\<close>, \<open>link\<close>, \<open>similarity\<close> and
  \<open>date\<close> of the source carry the prefix \<open>src_\<close> here.
\<close>

definition sourceOf :: "'p platform_scheme \<Rightarrow> ranked \<Rightarrow> error + source" where
  "sourceOf P p =
     bindE (cleanRendered P (map_of (props p) (ascii ''title''))) (\<lambda>title.
     bindE (case map_of (props p) (ascii ''date'') of
              Some d \<Rightarrow> if truthy d then toLocaleDateString P d else Inr []
            | None \<Rightarrow> Inr []) (\<lambda>date.
       Inr \<lparr> src_title = title,
             src_link = orEmpty (map_of (props p) (ascii ''link'')),
             src_similarity =
               (if numFalsy (similarity_score p) then Fin 0 else similarity_score p),
             src_date = date \<rparr>))"

text \<open>
  The two parts the \<open>forEach\<close> pushes for the post at position \<open>idx\<close> (the source's \<open>index\<close>):
  \<open>`\n**${index + 1}. ${title}**`\<close> and \<open>excerpt || 'no summary'\<close>.
\<close>

definition answerPartsOf :: "'p platform_scheme \<Rightarrow> nat \<times> ranked \<Rightarrow> error + jsstring list" where
  "answerPartsOf P ip =
     (case ip of (idx, p) \<Rightarrow>
        bindE (cleanRendered P (map_of (props p) (ascii ''title''))) (\<lambda>title.
        bindE (cleanRendered P (map_of (props p) (ascii ''excerpt''))) (\<lambda>excerpt.
          Inr [ [10] @ ascii ''**'' @ showNat (idx + 1) @ ascii ''. '' @ title @ ascii ''**'',
                if excerpt = [] then msgNoSummary else excerpt ])))"

text \<open>\<open>generateResponse(query, relevantPosts)\<close>\<close>

definition generateResponse ::
  "'p platform_scheme \<Rightarrow> jsstring \<Rightarrow> ranked list \<Rightarrow> error + response" where
  "generateResponse P query relevantPosts =
     (if relevantPosts = [] then Inr \<lparr> answer = msgNoRelevant, sources = [] \<rparr>
      else
        bindE (mapE (sourceOf P) relevantPosts) (\<lambda>srcs.
        bindE (mapE (answerPartsOf P) (zip [0..<length relevantPosts] relevantPosts)) (\<lambda>parts.
          let answerParts =
                [msgBannerPrefix @ showNat (length relevantPosts) @ msgBannerSuffix]
                @ concat parts @ [msgFooter]
          in Inr \<lparr> answer = joinLines answerParts, sources = srcs \<rparr>)))"

section \<open>The transport\<close>

text \<open>
  The outcome of one \<open>fetch\<close>: the promise is rejected with an error of the given
  message, or a response arrives with its status and the outcome of \<open>response.json()\<close>
  (the message of the error it is rejected with, or the parsed value).
\<close>

datatype fetched = Rejected jsstring | Response nat "jsstring + json"

text \<open>\<open>response.ok\<close>: the status is in the range 200 to 299.\<close>

definition responseOk :: "nat \<Rightarrow> bool" where
  "responseOk status = (200 \<le> status \<and> status \<le> 299)"

text \<open>
  What one call of \<open>processQuery\<close> meets outside the program: the outcome of the direct
  request and of the request through the relay, each determined by the query the URL is
  built from, and the two readings of \<open>Date.now()\<close>, at the cache lookup and at the
  cache store, in milliseconds.
\<close>

record world =
  fetchDirect :: "jsstring \<Rightarrow> fetched"
  fetchProxy :: "jsstring \<Rightarrow> fetched"
  nowAtLookup :: int
  nowAtStore :: int

text \<open>A network request the program issued, named by the query it carries.\<close>

datatype request = DirectRequest jsstring | ProxyRequest jsstring

text \<open>\<open>s.includes(pat)\<close>\<close>

fun includes_str :: "jsstring \<Rightarrow> jsstring \<Rightarrow> bool" where
  "includes_str [] pat = (pat = [])"
| "includes_str (c # cs) pat = (take (length pat) (c # cs) = pat \<or> includes_str cs pat)"

text \<open>The test in the \<open>catch\<close> of \<open>searchPosts\<close> on the message of the caught error.\<close>

definition networkClass :: "jsstring \<Rightarrow> bool" where
  "networkClass message =
     (includes_str message (ascii ''CORS'') \<or> includes_str message (ascii ''NetworkError'')
      \<or> includes_str message (ascii ''Failed to fetch''))"

text \<open>
  The strings \<open>encodeURIComponent\<close> accepts: those without a lone surrogate, where every
  high surrogate (55296 to 56319) is followed by a low surrogate (56320 to 57343) and every
  low surrogate follows a high one. The target URL that \<open>searchWithCorsProxy\<close> encodes
  is the query between ASCII text, so it is accepted exactly when the query is.
\<close>

definition isHighSurrogate :: "nat \<Rightarrow> bool" where
  "isHighSurrogate c = (55296 \<le> c \<and> c \<le> 56319)"

definition isLowSurrogate :: "nat \<Rightarrow> bool" where
  "isLowSurrogate c = (56320 \<le> c \<and> c \<le> 57343)"

fun wellFormed :: "jsstring \<Rightarrow> bool" where
  "wellFormed [] = True"
| "wellFormed [c] = (\<not> isHighSurrogate c \<and> \<not> isLowSurrogate c)"
| "wellFormed (c # d # cs) =
     (if isHighSurrogate c then isLowSurrogate d \<and> wellFormed cs
      else \<not> isLowSurrogate c \<and> wellFormed (d # cs))"

text \<open>
  The \<open>try\<close> block of \<open>searchWithCorsProxy\<close>: \<open>encodeURIComponent\<close> throws
  before the request is made when the query has a lone surrogate.
\<close>

definition proxyTry :: "'p platform_scheme \<Rightarrow> 'w world_scheme \<Rightarrow> jsstring \<Rightarrow> error + json" where
  "proxyTry P W query =
     (if \<not> wellFormed query then Inl URIError
      else
        (case fetchProxy W query of
           Rejected m \<Rightarrow> Inl (Error m)
         | Response status body \<Rightarrow>
             (case body of
                Inl m \<Rightarrow> Inl (Error m)
              | Inr data \<Rightarrow>
                  bindE (getProp data (ascii ''contents'')) (\<lambda>contents.
                    case contents of
                      Some c \<Rightarrow> if truthy c then jsonParse P c else Inl (Error msgEmptyProxy)
                    | None \<Rightarrow> Inl (Error msgEmptyProxy)))))"

text \<open>The requests \<open>searchWithCorsProxy\<close> issues: one, unless the encoding throws.\<close>

definition proxyRequests :: "jsstring \<Rightarrow> request list" where
  "proxyRequests query = (if wellFormed query then [ProxyRequest query] else [])"

text \<open>\<open>searchWithCorsProxy(query)\<close>: the \<open>catch\<close> returns the empty array.\<close>

definition searchWithCorsProxy :: "'p platform_scheme \<Rightarrow> 'w world_scheme \<Rightarrow> jsstring \<Rightarrow> json" where
  "searchWithCorsProxy P W query =
     (case proxyTry P W query of Inl error \<Rightarrow> JArr [] | Inr v \<Rightarrow> v)"

text \<open>
  The \<open>try\<close> block of \<open>searchPosts\<close>: the parsed body, or the message of the error thrown.
\<close>

definition directTry :: "'w world_scheme \<Rightarrow> jsstring \<Rightarrow> jsstring + json" where
  "directTry W query =
     (case fetchDirect W query of
        Rejected m \<Rightarrow> Inl m
      | Response status body \<Rightarrow>
          if \<not> responseOk status then Inl (ascii ''HTTP '' @ showNat status) else body)"

text \<open>\<open>searchPosts(query)\<close>, with the requests it issued, in order.\<close>

definition searchPosts ::
  "'p platform_scheme \<Rightarrow> 'w world_scheme \<Rightarrow> jsstring \<Rightarrow> (error + json) \<times> request list" where
  "searchPosts P W query =
     (case directTry W query of
        Inr v \<Rightarrow> (Inr v, [DirectRequest query])
      | Inl message \<Rightarrow>
          if networkClass message
          then (Inr (searchWithCorsProxy P W query), DirectRequest query # proxyRequests query)
          else (Inl (Error msgSearchFailed), [DirectRequest query]))"

section \<open>The query cache and the orchestrator\<close>

record cacheEntry =
  response :: response
  timestamp :: int

text \<open>
  The state that outlives a call: the \<open>queryCache\<close> map and, for the claims about network
  calls, the list of all requests issued so far.
\<close>

record state =
  queryCache :: "jsstring \<rightharpoonup> cacheEntry"
  requests :: "request list"

definition cacheExpiry :: int where
  "cacheExpiry = 30 * 60 * 1000"

text \<open>The condition of the cache check: an entry exists and is younger than the expiry.\<close>

definition cacheHit :: "'w world_scheme \<Rightarrow> jsstring \<Rightarrow> state \<Rightarrow> cacheEntry option" where
  "cacheHit W question st =
     (case queryCache st question of
        Some cached \<Rightarrow>
          if nowAtLookup W - timestamp cached < cacheExpiry then Some cached else None
      | None \<Rightarrow> None)"

text \<open>The \<open>try\<close> block of \<open>processQuery\<close>: the value returned or the error thrown, and the state.\<close>

definition processTry ::
  "'p platform_scheme \<Rightarrow> 'w world_scheme \<Rightarrow> jsstring \<Rightarrow> state \<Rightarrow> (error + response) \<times> state" where
  "processTry P W question st =
     (if question = [] \<or> length (trim question) < 3
      then (Inr \<lparr> answer = msgTooShort, sources = [] \<rparr>, st)
      else
        (case searchPosts P W question of (found, issued) \<Rightarrow>
           let st1 = st\<lparr> requests := requests st @ issued \<rparr>
           in (case found of
                 Inl e \<Rightarrow> (Inl e, st1)
               | Inr posts \<Rightarrow>
                   if \<not> truthy posts \<or> lengthIsZero posts
                   then (Inr \<lparr> answer = msgNoPosts, sources = [] \<rparr>, st1)
                   else
                     let rankedPosts = rankRelevantPosts P question posts (Some 5)
                     in (case generateResponse P question rankedPosts of
                           Inl e \<Rightarrow> (Inl e, st1)
                         | Inr resp \<Rightarrow>
                             (Inr resp,
                              st1\<lparr> queryCache := (queryCache st1)(question \<mapsto>
                                     \<lparr> response = resp, timestamp = nowAtStore W \<rparr>) \<rparr>)))))"

text \<open>
  \<open>processQuery(question)\<close>: \<open>Inr\<close> is the value the promise resolves to, \<open>Inl\<close> the
  error it would be rejected with.
\<close>

definition processQuery ::
  "'p platform_scheme \<Rightarrow> 'w world_scheme \<Rightarrow> jsstring \<Rightarrow> state \<Rightarrow> (error + response) \<times> state" where
  "processQuery P W question st =
     (case cacheHit W question st of
        Some cached \<Rightarrow> (Inr (response cached), st)
      | None \<Rightarrow>
          (case processTry P W question st of
             (Inl error, st') \<Rightarrow> (Inr \<lparr> answer = msgTechnical, sources = [] \<rparr>, st')
           | (Inr resp, st') \<Rightarrow> (Inr resp, st')))"

section \<open>Notions used in the statements\<close>

text \<open>The Euclidean norm of a vector of reals.\<close>

definition euclideanNorm :: "real list \<Rightarrow> real" where
  "euclideanNorm v = sqrt (\<Sum>x\<leftarrow>v. x * x)"

text \<open>
  Term frequency and inverse document frequency as real numbers: the occurrences of a term
  in a document over the document's token count, and the logarithm of the document count
  over one plus the document frequency.
\<close>

definition termFreq :: "'a list \<Rightarrow> 'a \<Rightarrow> real" where
  "termFreq words w = real (count_list words w) / real (length words)"

definition invDocFreq :: "'a list list \<Rightarrow> 'a \<Rightarrow> real" where
  "invDocFreq processedDocs w =
     ln (real (length processedDocs) / real (1 + docFreq processedDocs w))"

text \<open>
  The order of the ranker's result: a greater similarity comes first, and of two equal
  similarities the one with the smaller original index.
\<close>

definition rankedBefore :: "scored \<Rightarrow> scored \<Rightarrow> bool" where
  "rankedBefore a b =
     (jgt (similarity a) (similarity b)
      \<or> (similarity a = similarity b \<and> index a < index b))"

section \<open>Double-precision arithmetic\<close>

text \<open>
  The numbers of the engine are IEEE 754 doubles, and the operations of the vectorizer and of
  \<open>cosineSimilarity\<close> round each result to the nearest double, ties to the even significand.
  This section repeats the two functions on doubles, for the one claim that depends on the
  rounding. A finite double is \<open>Dbl m e\<close>, the number \<open>m * 2 ^ e\<close> with
  \<open>2 ^ 52 \<le> \<bar>m\<bar> < 2 ^ 53\<close> and \<open>- 1074 \<le> e \<le> 971\<close>, or the zero \<open>Dbl 0 0\<close>.
  Everything else is \<open>Unmodelled\<close>: the infinities, \<open>NaN\<close>, the subnormal numbers, and the
  results of an overflow, of a division by zero and of the square root of a negative number.
  The sign of zero is not modelled.
\<close>

datatype double = Dbl int int | Unmodelled

text \<open>The number of binary digits of a natural number.\<close>

fun bitLength :: "nat \<Rightarrow> nat" where
  "bitLength n = (if n = 0 then 0 else Suc (bitLength (n div 2)))"

declare bitLength.simps [simp del]

definition inRange :: "int \<Rightarrow> int \<Rightarrow> double" where
  "inRange m e = (if - 1074 \<le> e \<and> e \<le> 971 then Dbl m e else Unmodelled)"

text \<open>
  The double nearest to \<open>M * 2 ^ E\<close>. A significand of at most 53 digits is exact and is
  shifted up to 53 digits. A longer one loses its low \<open>s\<close> digits: the quotient \<open>q\<close> is kept
  and is increased by one when the remainder is more than half a unit of \<open>q\<close>, or exactly
  half and \<open>q\<close> is odd.
\<close>

definition roundDyadic :: "int \<Rightarrow> int \<Rightarrow> double" where
  "roundDyadic M E =
     (if M = 0 then Dbl 0 0
      else
        let k = bitLength (nat \<bar>M\<bar>)
        in if k \<le> 53 then inRange (M * 2 ^ (53 - k)) (E - int (53 - k))
           else
             let s = k - 53;
                 q = \<bar>M\<bar> div 2 ^ s;
                 r = \<bar>M\<bar> mod 2 ^ s;
                 half = 2 ^ (s - 1);
                 q' = (if half < r \<or> (r = half \<and> odd q) then q + 1 else q)
             in if q' = 2 ^ 53 then inRange (sgn M * 2 ^ 52) (E + int s + 1)
                else inRange (sgn M * q') (E + int s))"

text \<open>A count or a length as a double.\<close>

definition dOfNat :: "nat \<Rightarrow> double" where
  "dOfNat n = roundDyadic (int n) 0"



text \<open>
  Quotient: the integer quotient \<open>Q\<close> of the significands, the dividend shifted up by 56
  digits, has at least 56 digits, so its last digits are below the rounding position. One
  more digit, set when the division leaves a remainder, keeps an inexact quotient off the
  exact half; then the rounding of this integer is the rounding of the exact quotient.
\<close>

fun ddiv :: "double \<Rightarrow> double \<Rightarrow> double" where
  "ddiv (Dbl a e) (Dbl b f) =
     (if b = 0 then Unmodelled
      else if a = 0 then Dbl 0 0
      else
        let Q = (\<bar>a\<bar> * 2 ^ 56) div \<bar>b\<bar>;
            R = (\<bar>a\<bar> * 2 ^ 56) mod \<bar>b\<bar>
        in roundDyadic (sgn a * sgn b * (2 * Q + (if R = 0 then 0 else 1))) (e - f - 57))"
| "ddiv _ _ = Unmodelled"

text \<open>The integer square root, digit by digit.\<close>

fun floorSqrt :: "nat \<Rightarrow> nat" where
  "floorSqrt n =
     (if n < 2 then n
      else let s = 2 * floorSqrt (n div 4) in if (s + 1) * (s + 1) \<le> n then s + 1 else s)"

declare floorSqrt.simps [simp del]

text \<open>
  Square root: the significand is shifted up by 60 or 61 digits, to an even exponent, and
  the integer square root \<open>S\<close> of the result has at least 56 digits; as in the quotient, one
  more digit is set when \<open>S\<close> is not the exact root.
\<close>

fun dsqrt :: "double \<Rightarrow> double" where
  "dsqrt (Dbl a e) =
     (if a < 0 then Unmodelled
      else if a = 0 then Dbl 0 0
      else
        let j = 60 + e mod 2;
            N = nat (a * 2 ^ nat j);
            S = floorSqrt N
        in roundDyadic (2 * int S + (if S * S = N then 0 else 1)) ((e - j) div 2 - 1))"
| "dsqrt Unmodelled = Unmodelled"

text \<open>The real number that a double stands for.\<close>

fun dvalue :: "double \<Rightarrow> real" where
  "dvalue (Dbl m e) = (if 0 \<le> e then of_int m * 2 ^ nat e else of_int m / 2 ^ nat (- e))"
| "dvalue Unmodelled = 0"









section \<open>Inputs of the worked examples\<close>

text \<open>
  A platform for the examples, which use lower-case ASCII text without markup: the case
  mapping on ASCII letters, the text of a string as its own text content, an empty date and a
  \<open>JSON.parse\<close> that rejects its input.
\<close>

definition asciiLower :: "jsstring \<Rightarrow> jsstring" where
  "asciiLower s = map (\<lambda>c. if 65 \<le> c \<and> c \<le> 90 then c + 32 else c) s"

definition examplePlatform :: platform where
  "examplePlatform =
     \<lparr> toLowerCase = asciiLower,
       domText = (\<lambda>v. case v of JStr s \<Rightarrow> Inr s | _ \<Rightarrow> Inl TypeError),
       toLocaleDateString = (\<lambda>v. Inr []),
       jsonParse = (\<lambda>v. Inl (Error [])) \<rparr>"

text \<open>A corpus of two identical documents.\<close>

definition twinCorpus :: "jsstring list" where
  "twinCorpus = [ascii ''abc'', ascii ''abc'']"

text \<open>Two posts with the same title and nothing else.\<close>

definition twinPosts :: json where
  "twinPosts =
     JArr [JObj [(ascii ''title'', JObj [(ascii ''rendered'', JStr (ascii ''abc''))])],
           JObj [(ascii ''title'', JObj [(ascii ''rendered'', JStr (ascii ''abc''))])]]"

text \<open>
  An array whose only element is \<open>null\<close>, on which scoring throws, and one post that shares
  no token with the query \<open>abc\<close>.
\<close>

definition brokenPosts :: json where
  "brokenPosts = JArr [JNull]"

definition otherPosts :: json where
  "otherPosts = JArr [JObj [(ascii ''title'', JObj [(ascii ''rendered'', JStr (ascii ''xyz''))])]]"

text \<open>
  The state of a new \<open>RAGChatSystem\<close>, and a world in which every direct request has one
  outcome and every request through the relay another.
\<close>

definition emptyState :: state where
  "emptyState = \<lparr> queryCache = Map.empty, requests = [] \<rparr>"

definition worldOf :: "fetched \<Rightarrow> fetched \<Rightarrow> int \<Rightarrow> int \<Rightarrow> world" where
  "worldOf direct proxy t1 t2 =
     \<lparr> fetchDirect = (\<lambda>query. direct), fetchProxy = (\<lambda>query. proxy),
       nowAtLookup = t1, nowAtStore = t2 \<rparr>"



section \<open>The loop of cosine similarity\<close>

lemma cosineStep_triple:
  "cosineStep vecA vecB i (d, x, y) =
     (jadd d (jmul (numAt vecA i) (numAt vecB i)),
      jadd x (jmul (numAt vecA i) (numAt vecA i)),
      jadd y (jmul (numAt vecB i) (numAt vecB i)))"
  by (simp add: cosineStep_def)

lemma cosine_fold_normA:
  "n \<le> length a \<Longrightarrow>
   \<exists>d y. fold (cosineStep (map Fin a) vecB) [0..<n] (Fin 0, Fin 0, Fin 0)
          = (d, Fin (\<Sum>i<n. a ! i * a ! i), y)"
proof (induction n)
  case 0
  then show ?case by simp
next
  case (Suc n)
  then obtain d y where
    "fold (cosineStep (map Fin a) vecB) [0..<n] (Fin 0, Fin 0, Fin 0)
       = (d, Fin (\<Sum>i<n. a ! i * a ! i), y)"
    by auto
  with Suc.prems show ?case
    by (simp add: cosineStep_triple numAt_def)
qed

lemma cosine_fold_fin:
  "n \<le> length a \<Longrightarrow> length a \<le> length b \<Longrightarrow>
   fold (cosineStep (map Fin a) (map Fin b)) [0..<n] (Fin 0, Fin 0, Fin 0)
     = (Fin (\<Sum>i<n. a ! i * b ! i), Fin (\<Sum>i<n. a ! i * a ! i), Fin (\<Sum>i<n. b ! i * b ! i))"
  by (induction n) (simp_all add: cosineStep_triple numAt_def)

lemma sum_squares_zero_iff:
  fixes a :: "real list"
  shows "(\<Sum>i<n. a ! i * a ! i) = 0 \<longleftrightarrow> (\<forall>i<n. a ! i = 0)"
  by (subst sum_nonneg_eq_0_iff) auto

lemma euclideanNorm_zero_iff: "euclideanNorm a = 0 \<longleftrightarrow> (\<forall>x\<in>set a. x = 0)"
proof -
  have "(\<Sum>x\<leftarrow>a. x * x) = 0 \<longleftrightarrow> (\<forall>y\<in>set (map (\<lambda>x. x * x) a). y = 0)"
    by (rule sum_list_nonneg_eq_0_iff) auto
  then show ?thesis by (simp add: euclideanNorm_def)
qed

lemma cosineSimilarity_zero_left:
  assumes "euclideanNorm a = 0"
  shows "cosineSimilarity (map Fin a) vecB = Fin 0"
proof -
  obtain d y where f: "fold (cosineStep (map Fin a) vecB) [0..<length a] (Fin 0, Fin 0, Fin 0)
          = (d, Fin (\<Sum>i<length a. a ! i * a ! i), y)"
    using cosine_fold_normA [of "length a" a vecB] by auto
  have "(\<Sum>i<length a. a ! i * a ! i) = 0"
    using assms by (simp add: sum_squares_zero_iff euclideanNorm_zero_iff)
  with f show ?thesis by (simp add: cosineSimilarity_def)
qed

lemma cosineSimilarity_zero_right:
  assumes "length a \<le> length b" "euclideanNorm b = 0"
  shows "cosineSimilarity (map Fin a) (map Fin b) = Fin 0"
proof -
  have "(\<Sum>i<length a. b ! i * b ! i) = 0"
    using assms by (simp add: sum_squares_zero_iff euclideanNorm_zero_iff)
  then show ?thesis
    using assms(1) by (simp add: cosineSimilarity_def cosine_fold_fin)
qed

lemma cosineSimilarity_fin:
  assumes "length a = length b"
  shows "cosineSimilarity (map Fin a) (map Fin b) =
     (if (\<Sum>i<length a. a ! i * a ! i) = 0 \<or> (\<Sum>i<length a. b ! i * b ! i) = 0 then Fin 0
      else Fin ((\<Sum>i<length a. a ! i * b ! i)
             / (sqrt (\<Sum>i<length a. a ! i * a ! i) * sqrt (\<Sum>i<length a. b ! i * b ! i))))"
proof -
  have "0 \<le> (\<Sum>i<length a. a ! i * a ! i)" "0 \<le> (\<Sum>i<length a. b ! i * b ! i)"
    by (simp_all add: sum_nonneg)
  then show ?thesis
    using assms by (simp add: cosineSimilarity_def cosine_fold_fin)
qed

section \<open>The Cauchy-Schwarz inequality for finite sums\<close>

lemma cauchy_schwarz_step:
  fixes d A B x y :: real
  assumes IH: "d\<^sup>2 \<le> A * B" and A: "0 \<le> A" and B: "0 \<le> B"
  shows "(d + x * y)\<^sup>2 \<le> (A + x * x) * (B + y * y)"
proof -
  define u where "u = A * (y * y)"
  define v where "v = B * (x * x)"
  have u: "0 \<le> u" and v: "0 \<le> v" using A B by (simp_all add: u_def v_def)
  have "(2 * (d * (x * y)))\<^sup>2 = 4 * (d\<^sup>2 * (x * y)\<^sup>2)"
    by (simp add: power_mult_distrib)
  also have "\<dots> \<le> 4 * ((A * B) * (x * y)\<^sup>2)"
  proof -
    have "d\<^sup>2 * (x * y)\<^sup>2 \<le> (A * B) * (x * y)\<^sup>2"
      by (rule mult_right_mono [OF IH]) simp
    then show ?thesis by simp
  qed
  also have "\<dots> = 4 * (u * v)"
    by (simp add: u_def v_def power2_eq_square)
  also have "\<dots> \<le> (u + v)\<^sup>2"
  proof -
    have "0 \<le> (u - v)\<^sup>2" by simp
    then show ?thesis by (simp add: power2_eq_square algebra_simps)
  qed
  finally have "(2 * (d * (x * y)))\<^sup>2 \<le> (u + v)\<^sup>2" .
  moreover have "0 \<le> u + v" using u v by simp
  ultimately have "2 * (d * (x * y)) \<le> u + v"
    by (rule power2_le_imp_le)
  then have "d\<^sup>2 + 2 * (d * (x * y)) \<le> A * B + u + v"
    using IH by simp
  then show ?thesis
    by (simp add: u_def v_def power2_eq_square algebra_simps)
qed

lemma cauchy_schwarz_sum:
  fixes f g :: "nat \<Rightarrow> real"
  shows "(\<Sum>i<n. f i * g i)\<^sup>2 \<le> (\<Sum>i<n. f i * f i) * (\<Sum>i<n. g i * g i)"
proof (induction n)
  case 0
  then show ?case by simp
next
  case (Suc n)
  have "((\<Sum>i<n. f i * g i) + f n * g n)\<^sup>2
        \<le> ((\<Sum>i<n. f i * f i) + f n * f n) * ((\<Sum>i<n. g i * g i) + g n * g n)"
    by (rule cauchy_schwarz_step [OF Suc.IH]) (simp_all add: sum_nonneg)
  then show ?case by simp
qed

lemma cosine_le_one:
  fixes d A B :: real
  assumes "d\<^sup>2 \<le> A * B" "0 < A" "0 < B"
  shows "d / (sqrt A * sqrt B) \<le> 1"
proof -
  have "d \<le> sqrt (A * B)"
    using assms(1) by (rule real_le_rsqrt)
  then show ?thesis
    using assms by (simp add: real_sqrt_mult)
qed

section \<open>The vectors of one call\<close>

lemma set_fold_setInsert: "set (fold setInsert xs acc) = set acc \<union> set xs"
  by (induction xs arbitrary: acc) (auto simp: setInsert_def)

lemma set_vocabularyOf: "set (vocabularyOf processedDocs) = set (concat processedDocs)"
  by (simp add: vocabularyOf_def set_fold_setInsert)

lemma distinct_fold_setInsert: "distinct acc \<Longrightarrow> distinct (fold setInsert xs acc)"
  by (induction xs arbitrary: acc) (auto simp: setInsert_def)

lemma distinct_vocabularyOf: "distinct (vocabularyOf processedDocs)"
  by (simp add: vocabularyOf_def distinct_fold_setInsert)

lemma docFreq_pos: "w \<in> set (concat processedDocs) \<Longrightarrow> 1 \<le> docFreq processedDocs w"
proof -
  assume "w \<in> set (concat processedDocs)"
  then obtain doc where "doc \<in> set processedDocs" "w \<in> set doc" by auto
  then have "filter (\<lambda>doc. w \<in> set doc) processedDocs \<noteq> []"
    by (auto simp: filter_empty_conv)
  then show ?thesis
    by (cases "filter (\<lambda>doc. w \<in> set doc) processedDocs") (simp_all add: docFreq_def)
qed

lemma docFreq_le: "docFreq processedDocs w \<le> length processedDocs"
  by (simp add: docFreq_def)

lemma idfGet_vocab:
  assumes "w \<in> set vocabArray" "w \<in> set (concat processedDocs)"
  shows "idfGet (idfMapOf processedDocs vocabArray) w = Fin (invDocFreq processedDocs w)"
proof -
  have "0 < length processedDocs"
    using docFreq_pos [OF assms(2)] docFreq_le [of processedDocs w] by linarith
  moreover have "map_of (idfMapOf processedDocs vocabArray) w
      = Some (jlog (jdiv (Fin (real (length processedDocs)))
                         (Fin (real (1 + docFreq processedDocs w)))))"
    using assms(1) by (simp add: idfMapOf_def map_of_map_restrict)
  ultimately show ?thesis
    by (simp add: idfGet_def invDocFreq_def)
qed

lemma wordCount_fold:
  "fold (\<lambda>word m. m(word \<mapsto> (case m word of None \<Rightarrow> 0 | Some c \<Rightarrow> c) + 1)) words m w
     = (if w \<in> set words
        then Some ((case m w of None \<Rightarrow> 0 | Some c \<Rightarrow> c) + count_list words w)
        else m w)"
  by (induction words arbitrary: m) auto

lemma wordCountOf_eq:
  "wordCountOf words w = (if w \<in> set words then Some (count_list words w) else None)"
  unfolding wordCountOf_def by (subst wordCount_fold) simp

lemma termFreq_nonneg: "0 \<le> termFreq words w"
  by (simp add: termFreq_def)

lemma termFreq_pos:
  assumes "w \<in> set words"
  shows "0 < termFreq words w"
proof -
  have "count_list words w \<noteq> 0" using assms by (simp add: count_list_0_iff)
  moreover have "length words \<noteq> 0" using assms by auto
  ultimately show ?thesis by (simp add: termFreq_def)
qed

lemma termFreq_unseen: "w \<notin> set words \<Longrightarrow> termFreq words w = 0"
  by (simp add: termFreq_def count_list_0_iff)

lemma vectorOf_eq:
  assumes "set vocabArray \<subseteq> set (concat processedDocs)"
  shows "vectorOf vocabArray (idfMapOf processedDocs vocabArray) words
       = map (\<lambda>w. Fin (termFreq words w * invDocFreq processedDocs w)) vocabArray"
proof -
  have "(case wordCountOf words w of
           Some c \<Rightarrow> jmul (jdiv (Fin (real c)) (Fin (real (length words))))
                       (idfGet (idfMapOf processedDocs vocabArray) w)
         | None \<Rightarrow> Fin 0)
        = Fin (termFreq words w * invDocFreq processedDocs w)"
    if "w \<in> set vocabArray" for w
  proof (cases "w \<in> set words")
    case True
    then have "words \<noteq> []" by auto
    moreover have "idfGet (idfMapOf processedDocs vocabArray) w = Fin (invDocFreq processedDocs w)"
      using that assms by (intro idfGet_vocab) auto
    ultimately show ?thesis
      using True by (simp add: wordCountOf_eq termFreq_def)
  next
    case False
    then show ?thesis by (simp add: wordCountOf_eq termFreq_unseen)
  qed
  then show ?thesis
    unfolding vectorOf_def Let_def by (intro map_cong refl)
qed

lemma tfIdfOfTokens_eq:
  "tfIdfOfTokens processedDocs =
     (map (\<lambda>words. map (\<lambda>w. Fin (termFreq words w * invDocFreq processedDocs w))
                        (vocabularyOf processedDocs)) processedDocs,
      vocabularyOf processedDocs)"
  by (simp add: tfIdfOfTokens_def Let_def vectorOf_eq set_vocabularyOf)

section \<open>Bounds of the similarity\<close>


lemma cosineSimilarity_weighted:
  fixes s t idf :: "'a \<Rightarrow> real"
  assumes s: "\<And>w. 0 \<le> s w" and t: "\<And>w. 0 \<le> t w"
  shows "\<exists>r. cosineSimilarity (map (\<lambda>w. Fin (s w * idf w)) V) (map (\<lambda>w. Fin (t w * idf w)) V) = Fin r
             \<and> 0 \<le> r \<and> r \<le> 1"
proof -
  define a where "a = map (\<lambda>w. s w * idf w) V"
  define b where "b = map (\<lambda>w. t w * idf w) V"
  define d where "d = (\<Sum>i<length a. a ! i * b ! i)"
  define A where "A = (\<Sum>i<length a. a ! i * a ! i)"
  define B where "B = (\<Sum>i<length a. b ! i * b ! i)"
  have len: "length a = length b" by (simp add: a_def b_def)
  have ab: "map (\<lambda>w. Fin (s w * idf w)) V = map Fin a" "map (\<lambda>w. Fin (t w * idf w)) V = map Fin b"
    by (simp_all add: a_def b_def)
  have A: "0 \<le> A" and B: "0 \<le> B" by (simp_all add: A_def B_def sum_nonneg)
  have d: "0 \<le> d"
    unfolding d_def
  proof (rule sum_nonneg)
    fix i assume "i \<in> {..<length a}"
    then have i: "i < length V" by (simp add: a_def)
    have "a ! i * b ! i = (s (V ! i) * t (V ! i)) * (idf (V ! i) * idf (V ! i))"
      using i by (simp add: a_def b_def)
    then show "0 \<le> a ! i * b ! i"
      using s t by simp
  qed
  have cs: "d\<^sup>2 \<le> A * B"
    unfolding d_def A_def B_def by (rule cauchy_schwarz_sum)
  have eq: "cosineSimilarity (map Fin a) (map Fin b) =
     (if A = 0 \<or> B = 0 then Fin 0 else Fin (d / (sqrt A * sqrt B)))"
    using cosineSimilarity_fin [OF len] by (simp add: d_def A_def B_def)
  show ?thesis
  proof (cases "A = 0 \<or> B = 0")
    case True
    then show ?thesis by (simp add: ab eq)
  next
    case False
    then have "0 < A" "0 < B" using A B by auto
    then have "d / (sqrt A * sqrt B) \<le> 1"
      using cs by (intro cosine_le_one)
    moreover have "0 \<le> d / (sqrt A * sqrt B)"
      using d A B by (intro divide_nonneg_nonneg mult_nonneg_nonneg) simp_all
    ultimately show ?thesis using False by (simp add: ab eq)
  qed
qed

lemma length_createTfIdfVectors:
  "length (fst (createTfIdfVectors P documents)) = length documents"
  by (simp add: createTfIdfVectors_def tfIdfOfTokens_eq)

lemmas example_eval =
  createTfIdfVectors_def tfIdfOfTokens_def preprocessText_def examplePlatform_def asciiLower_def
  ascii_def isSpace_def isWordChar_def isCyrillic_def trim_def vocabularyOf_def setInsert_def
  idfMapOf_def vectorOf_def wordCountOf_def docFreq_def idfGet_def twinCorpus_def

section \<open>The similarities of one ranking run\<close>

lemma vectors_shape:
  "fst (createTfIdfVectors P documents) =
     map (\<lambda>words. map (\<lambda>w. Fin (termFreq words w
                                  * invDocFreq (map (preprocessText P) documents) w))
                        (snd (createTfIdfVectors P documents)))
         (map (preprocessText P) documents)"
  by (simp add: createTfIdfVectors_def tfIdfOfTokens_eq)

lemma similarity_unit:
  assumes "a \<in> set (fst (createTfIdfVectors P documents))"
    and "b \<in> set (fst (createTfIdfVectors P documents))"
  shows "\<exists>r. cosineSimilarity a b = Fin r \<and> 0 \<le> r \<and> r \<le> 1"
proof -
  define D where "D = map (preprocessText P) documents"
  define V where "V = snd (createTfIdfVectors P documents)"
  obtain wa where a: "a = map (\<lambda>w. Fin (termFreq wa w * invDocFreq D w)) V"
    using assms(1) unfolding vectors_shape [of P documents] D_def V_def by auto
  obtain wb where b: "b = map (\<lambda>w. Fin (termFreq wb w * invDocFreq D w)) V"
    using assms(2) unfolding vectors_shape [of P documents] D_def V_def by auto
  show ?thesis
    unfolding a b by (rule cosineSimilarity_weighted) (rule termFreq_nonneg)+
qed

lemma vectors_finite:
  assumes "v \<in> set (fst (createTfIdfVectors P documents))"
  shows "length v = length (snd (createTfIdfVectors P documents)) \<and> (\<forall>c\<in>set v. isFinite c)"
  using assms unfolding vectors_shape [of P documents] by auto

lemma similaritiesOf_unit:
  assumes "vs = fst (createTfIdfVectors P documents)" "vs \<noteq> []"
    and "item \<in> set (similaritiesOf (last vs) (butlast vs) ps)"
  shows "\<exists>r. similarity item = Fin r \<and> 0 \<le> r \<and> r \<le> 1"
proof -
  obtain i where i: "i < length (butlast vs)"
    and s: "similarity item = cosineSimilarity (last vs) (butlast vs ! i)"
    using assms(3) by (auto simp: similaritiesOf_def)
  have "last vs \<in> set vs" using assms(2) by simp
  moreover have "butlast vs ! i \<in> set vs"
    using i by (meson in_set_butlastD nth_mem)
  ultimately show ?thesis
    unfolding s assms(1) by (intro similarity_unit) (simp_all add: assms(1))
qed

section \<open>The steps of the ranker\<close>

lemma mapE_length: "mapE f xs = Inr ys \<Longrightarrow> length ys = length xs"
  by (induction xs arbitrary: ys) (auto simp: bindE_def split: sum.splits)

lemma set_insertBy: "set (insertBy cmp x ys) = insert x (set ys)"
  by (induction ys) auto

lemma set_sortBy: "set (sortBy cmp xs) = set xs"
  by (induction xs) (simp_all add: sortBy_def set_insertBy)

lemma set_sliceTo: "set (sliceTo k xs) \<subseteq> set xs"
  by (auto simp: sliceTo_def dest: in_set_takeD)

lemma set_rankedItems: "set (rankedItems k sims) \<subseteq> set sims"
  using set_sliceTo [of k] by (fastforce simp: rankedItems_def set_sortBy)

lemma rankRelevantPosts_cases:
  "rankRelevantPosts P query posts topKArg = []
   \<or> (\<exists>ps postTexts.
         posts = JArr ps \<and> mapE (postText P) ps = Inr postTexts
         \<and> rankRelevantPosts P query posts topKArg =
             map toRanked
               (rankedItems (case topKArg of None \<Rightarrow> 5 | Some k \<Rightarrow> k)
                  (similaritiesOf
                     (last (fst (createTfIdfVectors P (postTexts @ [query]))))
                     (butlast (fst (createTfIdfVectors P (postTexts @ [query]))))
                     ps)))"
proof (cases posts)
  case (JArr ps)
  show ?thesis
  proof (cases "mapE (postText P) ps")
    case (Inl e)
    then show ?thesis
      by (simp add: rankRelevantPosts_def rankTry_def JArr bindE_def)
  next
    case (Inr postTexts)
    have "fst (createTfIdfVectors P (postTexts @ [query])) \<noteq> []"
      using length_createTfIdfVectors [of P "postTexts @ [query]"] by auto
    then show ?thesis
      by (auto simp: rankRelevantPosts_def rankTry_def JArr Inr bindE_def Let_def
          split: list.splits)
  qed
qed (simp_all add: rankRelevantPosts_def rankTry_def)


lemma isFinite_iff: "isFinite c \<longleftrightarrow> (\<exists>r. c = Fin r)"
  by (cases c) simp_all

lemma insertBy_sorted:
  assumes "\<forall>y\<in>set (x # ys). isFinite (similarity y)"
    and "sorted_wrt rankedBefore ys"
    and "\<forall>y\<in>set ys. index x < index y"
  shows "sorted_wrt rankedBefore (insertBy (\<lambda>a b. jsub (similarity b) (similarity a)) x ys)"
  using assms
proof (induction ys)
  case Nil
  then show ?case by simp
next
  case (Cons y ys)
  obtain rx ry where rx: "similarity x = Fin rx" and ry: "similarity y = Fin ry"
    using Cons.prems(1) by (auto simp: isFinite_iff)
  show ?case
  proof (cases "rx < ry")
    case True
    have "sorted_wrt rankedBefore (insertBy (\<lambda>a b. jsub (similarity b) (similarity a)) x ys)"
      using Cons by simp
    moreover have "rankedBefore y x"
      using True by (simp add: rankedBefore_def rx ry)
    ultimately show ?thesis
      using True Cons.prems(2) by (simp add: rx ry jsub_def set_insertBy)
  next
    case False
    have "rankedBefore x z" if "z \<in> set (y # ys)" for z
    proof -
      have "isFinite (similarity z)"
        using Cons.prems(1) that by auto
      then obtain rz where rz: "similarity z = Fin rz"
        by (auto simp: isFinite_iff)
      have "rz \<le> ry"
        using Cons.prems(2) that ry rz by (auto simp: rankedBefore_def)
      moreover have "index x < index z"
        using Cons.prems(3) that by auto
      ultimately show ?thesis
        using False by (auto simp: rankedBefore_def rx rz)
    qed
    then show ?thesis
      using False Cons.prems(2) by (simp add: rx ry jsub_def)
  qed
qed

lemma sortBy_sorted:
  assumes "\<forall>x\<in>set xs. isFinite (similarity x)"
    and "sorted_wrt (\<lambda>a b. index a < index b) xs"
  shows "sorted_wrt rankedBefore (sortBy (\<lambda>a b. jsub (similarity b) (similarity a)) xs)"
  using assms
proof (induction xs)
  case Nil
  then show ?case by (simp add: sortBy_def)
next
  case (Cons x xs)
  have "sorted_wrt rankedBefore
          (insertBy (\<lambda>a b. jsub (similarity b) (similarity a)) x
             (sortBy (\<lambda>a b. jsub (similarity b) (similarity a)) xs))"
    using Cons by (intro insertBy_sorted) (auto simp: set_sortBy)
  then show ?case by (simp add: sortBy_def)
qed

lemma similaritiesOf_indices:
  "sorted_wrt (\<lambda>a b. index a < index b) (similaritiesOf queryVector vectors ps)"
  by (simp add: similaritiesOf_def sorted_wrt_map)

lemma sorted_wrt_sliceTo: "sorted_wrt R xs \<Longrightarrow> sorted_wrt R (sliceTo k xs)"
  by (simp add: sliceTo_def)

lemma rankedItems_sorted:
  assumes "\<forall>x\<in>set sims. isFinite (similarity x)"
    and "sorted_wrt (\<lambda>a b. index a < index b) sims"
  shows "sorted_wrt rankedBefore (rankedItems k sims)"
  unfolding rankedItems_def
  by (intro sorted_wrt_sliceTo sorted_wrt_filter sortBy_sorted assms)

lemma rankedItems_threshold:
  "item \<in> set (rankedItems k sims) \<Longrightarrow> jgt (similarity item) (Fin (1 / 100))"
  using set_sliceTo [of k] by (fastforce simp: rankedItems_def)

lemma rankedItems_length: "0 \<le> k \<Longrightarrow> int (length (rankedItems k sims)) \<le> k"
  by (simp add: rankedItems_def sliceTo_def)

lemma cosineSimilarity_single: "c \<noteq> 0 \<Longrightarrow> cosineSimilarity [Fin c] [Fin c] = Fin 1"
  by (simp add: cosineSimilarity_def cosineStep_triple numAt_def)

lemmas rank_eval =
  rankRelevantPosts_def rankTry_def twinPosts_def postText_def cleanRendered_def
  cleanHtml_def optChain_def orEmpty_def bindE_def replaceAll_def
  similaritiesOf_def rankedItems_def sortBy_def sliceTo_def jsub_def toRanked_def

lemma similaritiesOf_posts:
  assumes "item \<in> set (similaritiesOf queryVector vectors ps)" "length vectors = length ps"
  shows "index item < length ps \<and> post item = Some (ps ! index item)"
  using assms by (auto simp: similaritiesOf_def)

section \<open>The steps of the transport\<close>

lemma showNat_digits: "set (showNat n) \<subseteq> {48..57}"
proof (induction n rule: showNat.induct)
  case (1 n)
  show ?case
  proof (cases "n < 10")
    case True
    then show ?thesis by (subst showNat.simps) simp
  next
    case False
    then have "set (showNat (n div 10)) \<subseteq> {48..57}" by (rule "1.IH")
    moreover have "48 + n mod 10 \<in> {48..57}" by simp
    ultimately show ?thesis using False by (subst showNat.simps) simp
  qed
qed

lemma includes_str_head: "includes_str s (c # pat) \<Longrightarrow> c \<in> set s"
  by (induction s) (auto dest: in_set_takeD)

lemma http_status_not_networkClass: "\<not> networkClass (ascii ''HTTP '' @ showNat status)"
proof -
  have "set (ascii ''HTTP '' @ showNat status) \<subseteq> {72, 84, 80, 32} \<union> {48..57}"
    using showNat_digits [of status] by (auto simp: ascii_def)
  then have "67 \<notin> set (ascii ''HTTP '' @ showNat status)"
    and "78 \<notin> set (ascii ''HTTP '' @ showNat status)"
    and "70 \<notin> set (ascii ''HTTP '' @ showNat status)"
    by auto
  then show ?thesis
    unfolding networkClass_def ascii_def
    by (auto dest!: includes_str_head simp del: set_append)
qed

lemma searchPosts_requests:
  "\<exists>rest. snd (searchPosts P W query) = DirectRequest query # rest"
  by (simp add: searchPosts_def split: sum.splits)

lemma proxy_request_iff:
  "ProxyRequest query \<in> set (snd (searchPosts P W query))
     \<longleftrightarrow> (\<exists>m. directTry W query = Inl m \<and> networkClass m) \<and> wellFormed query"
  by (auto simp: searchPosts_def proxyRequests_def split: sum.splits)

lemma searchPosts_fatal:
  "directTry W query = Inl m \<Longrightarrow> \<not> networkClass m \<Longrightarrow>
   searchPosts P W query = (Inl (Error msgSearchFailed), [DirectRequest query])"
  by (simp add: searchPosts_def)

lemma searchWithCorsProxy_caught:
  "proxyTry P W query = Inl e \<Longrightarrow> searchWithCorsProxy P W query = JArr []"
  by (simp add: searchWithCorsProxy_def)

section \<open>The steps of the orchestrator\<close>

lemma trim_Nil: "trim [] = []"
  by (simp add: trim_def)

lemma processQuery_hit:
  assumes "queryCache st question = Some \<lparr> response = resp, timestamp = t \<rparr>"
    and "nowAtLookup W - t < cacheExpiry"
  shows "processQuery P W question st = (Inr resp, st)"
  using assms by (simp add: processQuery_def cacheHit_def)

lemma processTry_stored:
  assumes "3 \<le> length (trim question)"
    and "fst (searchPosts P W question) = Inr posts" "truthy posts" "\<not> lengthIsZero posts"
    and "generateResponse P question (rankRelevantPosts P question posts (Some 5)) = Inr resp"
  shows "processTry P W question st =
           (Inr resp,
            \<lparr> queryCache = (queryCache st)(question \<mapsto> \<lparr> response = resp, timestamp = nowAtStore W \<rparr>),
              requests = requests st @ snd (searchPosts P W question) \<rparr>)"
proof -
  have "question \<noteq> []" using assms(1) by (auto simp: trim_Nil)
  then show ?thesis
    using assms by (cases "searchPosts P W question") (simp add: processTry_def Let_def)
qed

lemma processQuery_miss_requests:
  assumes "cacheHit W question st = None" "3 \<le> length (trim question)"
  shows "requests (snd (processQuery P W question st))
           = requests st @ snd (searchPosts P W question)"
proof -
  have "question \<noteq> []" using assms(2) by (auto simp: trim_Nil)
  then show ?thesis
    using assms
    by (cases "searchPosts P W question")
       (auto simp: processQuery_def processTry_def Let_def split: sum.splits)
qed

lemma rank_empty_on_error:
  "rankTry P query posts 5 = Inl e \<Longrightarrow> rankRelevantPosts P query posts (Some 5) = []"
  by (simp add: rankRelevantPosts_def)

section \<open>Rounding to the nearest double\<close>

text \<open>
  The integer square root and the digit count are what their names say, and a rounded
  number is a double within half a unit in its last place of the number it rounds.
\<close>

lemma bitLength_numeral:
  "bitLength (numeral (Num.Bit0 n)) = Suc (bitLength (numeral n))"
  "bitLength (numeral (Num.Bit1 n)) = Suc (bitLength (numeral n))"
  "bitLength (Suc 0) = 1" "bitLength 1 = 1" "bitLength 0 = 0"
  by (subst bitLength.simps, simp)+

lemma floorSqrt_correct:
  "floorSqrt n * floorSqrt n \<le> n \<and> n < (floorSqrt n + 1) * (floorSqrt n + 1)"
proof (induction n rule: floorSqrt.induct)
  case (1 n)
  show ?case
  proof (cases "n < 2")
    case True
    then have "n = 0 \<or> n = 1" by auto
    then show ?thesis by (subst (1 2 3 4) floorSqrt.simps) auto
  next
    case False
    define r where "r = floorSqrt (n div 4)"
    have IH: "r * r \<le> n div 4" "n div 4 < (r + 1) * (r + 1)"
      using "1.IH" [OF False] by (simp_all add: r_def)
    have lo: "(2 * r) * (2 * r) \<le> n"
    proof -
      have "(2 * r) * (2 * r) = 4 * (r * r)" by simp
      also have "\<dots> \<le> 4 * (n div 4)" using IH(1) by simp
      also have "\<dots> \<le> n" by simp
      finally show ?thesis .
    qed
    have hi: "n < (2 * r + 2) * (2 * r + 2)"
    proof -
      have "n div 4 + 1 \<le> (r + 1) * (r + 1)" using IH(2) by simp
      then have "4 * (n div 4) + 4 \<le> 4 * ((r + 1) * (r + 1))" by simp
      moreover have "n < 4 * (n div 4) + 4" by presburger
      moreover have "4 * ((r + 1) * (r + 1)) = (2 * r + 2) * (2 * r + 2)" by (simp add: algebra_simps)
      ultimately show ?thesis by linarith
    qed
    have eq: "floorSqrt n = (if (2 * r + 1) * (2 * r + 1) \<le> n then 2 * r + 1 else 2 * r)"
      using False by (subst floorSqrt.simps) (simp add: r_def Let_def)
    show ?thesis
    proof (cases "(2 * r + 1) * (2 * r + 1) \<le> n")
      case True
      then show ?thesis using hi by (simp add: eq)
    next
      case no: False
      then show ?thesis using lo by (simp add: eq)
    qed
  qed
qed

lemma bitLength_bounds:
  "0 < n \<Longrightarrow> 2 ^ (bitLength n - 1) \<le> n \<and> n < 2 ^ bitLength n"
proof (induction n rule: bitLength.induct)
  case (1 n)
  have eq: "bitLength n = Suc (bitLength (n div 2))"
    using "1.prems" by (subst bitLength.simps) simp
  show ?case
  proof (cases "n div 2 = 0")
    case True
    then have "n = 1" using "1.prems" by presburger
    then show ?thesis by (simp add: bitLength_numeral)
  next
    case False
    then have IH: "2 ^ (bitLength (n div 2) - 1) \<le> n div 2" "n div 2 < 2 ^ bitLength (n div 2)"
      using "1.IH" "1.prems" by simp_all
    have pos: "0 < bitLength (n div 2)"
      using False by (subst bitLength.simps) simp
    then have "(2::nat) ^ bitLength (n div 2) = 2 * 2 ^ (bitLength (n div 2) - 1)"
      by (cases "bitLength (n div 2)") simp_all
    then have "(2::nat) ^ bitLength (n div 2) \<le> 2 * (n div 2)"
      using IH(1) by simp
    then have "(2::nat) ^ bitLength (n div 2) \<le> n" by presburger
    moreover have "n < 2 * 2 ^ bitLength (n div 2)"
      using IH(2) by presburger
    ultimately show ?thesis by (simp add: eq)
  qed
qed

lemma roundDyadic_nearest:
  assumes res: "roundDyadic M E = Dbl m e" and nz: "M \<noteq> 0"
  shows "2 ^ 52 \<le> \<bar>m\<bar> \<and> \<bar>m\<bar> < 2 ^ 53 \<and> sgn m = sgn M
         \<and> 2 * \<bar>of_int M * 2 powr of_int E - of_int m * 2 powr of_int e\<bar> \<le> (2::real) powr of_int e"
proof -
  define A where "A = \<bar>M\<bar>"
  define k where "k = bitLength (nat \<bar>M\<bar>)"
  have Apos: "0 < A" using nz by (simp add: A_def)
  have nb: "2 ^ (k - 1) \<le> nat \<bar>M\<bar>" "nat \<bar>M\<bar> < 2 ^ k"
    using bitLength_bounds [of "nat \<bar>M\<bar>"] nz by (simp_all add: k_def)
  have kb: "2 ^ (k - 1) \<le> A" "A < 2 ^ k"
  proof -
    have "int (2 ^ (k - 1)) \<le> int (nat \<bar>M\<bar>)" using nb(1) by (simp only: of_nat_le_iff)
    then show "2 ^ (k - 1) \<le> A" by (simp add: A_def)
    have "int (nat \<bar>M\<bar>) < int (2 ^ k)" using nb(2) by (simp only: of_nat_less_iff)
    then show "A < 2 ^ k" by (simp add: A_def)
  qed
  have kpos: "0 < k" using kb(2) Apos by (cases k) simp_all
  have Mdecomp: "M = sgn M * A" unfolding A_def by (metis sgn_mult_abs)
  have sgn1: "\<bar>sgn M\<bar> = 1" using nz by (simp add: abs_sgn_eq)
  have sgnsgn: "\<And>c. 0 < c \<Longrightarrow> sgn (sgn M * c) = sgn M"
    by (simp add: sgn_mult)
  have abssgn: "\<And>c. 0 < c \<Longrightarrow> \<bar>sgn M * c\<bar> = c"
    using sgn1 by (simp add: abs_mult)
  define P :: real where "P = 2 powr of_int E"
  have Ppos: "0 < P" by (simp add: P_def)
  show ?thesis
  proof (cases "k \<le> 53")
    case True
    from res nz True have "inRange (M * 2 ^ (53 - k)) (E - int (53 - k)) = Dbl m e"
      by (simp add: roundDyadic_def Let_def k_def)
    then have me: "m = M * 2 ^ (53 - k)" "e = E - int (53 - k)"
      by (auto simp add: inRange_def split: if_splits)
    have "(2::int) ^ 52 = 2 ^ (k - 1) * 2 ^ (53 - k)"
      using True kpos by (simp add: power_add [symmetric])
    also have "\<dots> \<le> A * 2 ^ (53 - k)" using kb(1) by (simp only: mult_right_mono zero_le_power zero_le_numeral)
    finally have lo: "(2::int) ^ 52 \<le> A * 2 ^ (53 - k)" .
    have "A * 2 ^ (53 - k) < 2 ^ k * 2 ^ (53 - k)" using kb(2) by simp
    also have "\<dots> = (2::int) ^ 53" using True by (simp add: power_add [symmetric])
    finally have hi: "A * 2 ^ (53 - k) < (2::int) ^ 53" .
    have am: "\<bar>m\<bar> = A * 2 ^ (53 - k)" by (simp add: me abs_mult A_def)
    have sg: "sgn m = sgn M" by (simp add: me sgn_mult)
    have "(of_int m :: real) * 2 powr of_int e = of_int M * (2 powr of_int (E - int (53 - k)) * 2 ^ (53 - k))"
      by (simp add: me)
    also have "\<dots> = of_int M * 2 powr of_int E"
      by (simp add: powr_diff powr_realpow)
    finally have "of_int M * 2 powr of_int E - of_int m * 2 powr of_int e = (0::real)" by simp
    then show ?thesis using lo hi sg unfolding am by simp
  next
    case False
    define s where "s = k - 53"
    have spos: "0 < s" and ks: "k = 53 + s" using False by (simp_all add: s_def)
    define q where "q = A div 2 ^ s"
    define r where "r = A mod 2 ^ s"
    define half where "half = (2::int) ^ (s - 1)"
    define q' where "q' = (if half < r \<or> (r = half \<and> odd q) then q + 1 else q)"
    have rd: "roundDyadic M E =
                (if q' = 2 ^ 53 then inRange (sgn M * 2 ^ 52) (E + int s + 1)
                 else inRange (sgn M * q') (E + int s))"
      unfolding roundDyadic_def Let_def q'_def q_def r_def half_def s_def k_def A_def
      using nz False unfolding k_def by (simp only: if_False)
    have Aqr: "A = q * 2 ^ s + r" by (simp only: q_def r_def div_mult_mod_eq)
    have rge: "0 \<le> r" unfolding r_def by (rule pos_mod_sign) simp
    have rlt: "r < 2 ^ s" unfolding r_def by (rule pos_mod_bound) simp
    have twohalf: "2 * half = 2 ^ s" using spos by (cases s) (simp_all add: half_def)
    have p2: "(0::int) < 2 ^ s" by simp
    have Alo: "2 ^ 52 * 2 ^ s \<le> A" using kb(1) by (simp add: ks power_add)
    have Ahi: "A < 2 ^ 53 * 2 ^ s" using kb(2) by (simp add: ks power_add)
    have qlo: "2 ^ 52 \<le> q"
    proof (rule ccontr)
      assume "\<not> 2 ^ 52 \<le> q"
      then have "q + 1 \<le> 2 ^ 52" by simp
      then have "(q + 1) * 2 ^ s \<le> 2 ^ 52 * 2 ^ s" using p2 by (simp only: mult_right_mono zero_le_power zero_le_numeral)
      moreover have "A < (q + 1) * 2 ^ s" using Aqr rlt by (simp add: algebra_simps)
      ultimately show False using Alo by linarith
    qed
    have qhi: "q < 2 ^ 53"
    proof (rule ccontr)
      assume "\<not> q < 2 ^ 53"
      then have "2 ^ 53 \<le> q" by simp
      then have "2 ^ 53 * 2 ^ s \<le> q * 2 ^ s" using p2 by (simp only: mult_right_mono zero_le_power zero_le_numeral)
      moreover have "q * 2 ^ s \<le> A" using Aqr rge by simp
      ultimately show False using Ahi by linarith
    qed
    have q'lo: "2 ^ 52 \<le> q'" and q'hi: "q' \<le> 2 ^ 53"
      using qlo qhi by (simp_all add: q'_def)
    have q'pos: "0 < q'" using q'lo by simp
    have err: "2 * \<bar>A - q' * 2 ^ s\<bar> \<le> (2::int) ^ s"
    proof (cases "half < r \<or> (r = half \<and> odd q)")
      case True
      then have q1: "q' = q + 1" and hr: "half \<le> r" by (auto simp add: q'_def)
      have e: "A - q' * 2 ^ s = r - 2 ^ s"
        by (simp add: q1 Aqr algebra_simps)
      show ?thesis unfolding e using rlt hr twohalf by arith
    next
      case no: False
      then have q0: "q' = q" and hr: "r \<le> half" by (auto simp add: q'_def)
      have e: "A - q' * 2 ^ s = r" by (simp add: q0 Aqr)
      show ?thesis unfolding e using rge hr twohalf by arith
    qed
    have diff: "\<bar>of_int M * P - of_int (sgn M * q') * (P * 2 ^ s)\<bar>
                  = P * of_int \<bar>A - q' * 2 ^ s\<bar>"
    proof -
      have "of_int M * P - of_int (sgn M * q') * (P * 2 ^ s)
              = of_int (sgn M) * (P * of_int (A - q' * 2 ^ s))"
        by (subst Mdecomp) (simp add: algebra_simps)
      then have "\<bar>of_int M * P - of_int (sgn M * q') * (P * 2 ^ s)\<bar>
              = \<bar>of_int (sgn M) :: real\<bar> * \<bar>P * of_int (A - q' * 2 ^ s)\<bar>"
        by (simp only: abs_mult)
      also have "\<bar>of_int (sgn M) :: real\<bar> = 1"
        using sgn1 by (metis of_int_1 of_int_abs)
      finally show ?thesis using Ppos by (simp add: abs_mult)
    qed
    have errR: "2 * (P * of_int \<bar>A - q' * 2 ^ s\<bar>) \<le> P * 2 ^ s"
    proof -
      have "(of_int (2 * \<bar>A - q' * 2 ^ s\<bar>) :: real) \<le> of_int (2 ^ s)"
        using err by (simp only: of_int_le_iff)
      then have "2 * (of_int \<bar>A - q' * 2 ^ s\<bar> :: real) \<le> 2 ^ s" by simp
      then have "P * (2 * (of_int \<bar>A - q' * 2 ^ s\<bar> :: real)) \<le> P * 2 ^ s"
        using Ppos by (simp only: mult_le_cancel_left_pos)
      then show ?thesis by (simp add: algebra_simps)
    qed
    show ?thesis
    proof (cases "q' = 2 ^ 53")
      case True
      from res rd True have "inRange (sgn M * 2 ^ 52) (E + int s + 1) = Dbl m e"
        by (simp only: if_True refl)
      then have me: "m = sgn M * 2 ^ 52" "e = E + int s + 1"
        by (auto simp add: inRange_def split: if_splits)
      have b: "\<bar>m\<bar> = 2 ^ 52" unfolding me by (rule abssgn) simp
      have sg: "sgn m = sgn M" unfolding me by (rule sgnsgn) simp
      have pe: "(2::real) powr of_int e = P * 2 ^ s * 2"
        by (simp add: me P_def powr_add powr_realpow)
      have "(of_int m :: real) * 2 powr of_int e = of_int (sgn M * q') * (P * 2 ^ s)"
        unfolding pe by (simp add: me(1) True)
      then have "\<bar>of_int M * 2 powr of_int E - of_int m * 2 powr of_int e\<bar>
                   = P * of_int \<bar>A - q' * 2 ^ s\<bar>"
        using diff by (simp only: P_def)
      moreover have "P * 2 ^ s \<le> P * 2 ^ s * 2" using Ppos by simp
      ultimately have "2 * \<bar>of_int M * 2 powr of_int E - of_int m * 2 powr of_int e\<bar>
                         \<le> (2::real) powr of_int e"
        using errR by (simp only: pe)
      then show ?thesis using b sg by simp
    next
      case no: False
      from res rd no have "inRange (sgn M * q') (E + int s) = Dbl m e"
        by (simp only: if_False refl)
      then have me: "m = sgn M * q'" "e = E + int s"
        by (auto simp add: inRange_def split: if_splits)
      have b: "\<bar>m\<bar> = q'" unfolding me by (rule abssgn) (rule q'pos)
      have sg: "sgn m = sgn M" unfolding me by (rule sgnsgn) (rule q'pos)
      have pe: "(2::real) powr of_int e = P * 2 ^ s"
        by (simp add: me P_def powr_add powr_realpow)
      have "\<bar>of_int M * 2 powr of_int E - of_int m * 2 powr of_int e\<bar>
                   = P * of_int \<bar>A - q' * 2 ^ s\<bar>"
        using diff by (simp only: pe me(1) P_def)
      then have "2 * \<bar>of_int M * 2 powr of_int E - of_int m * 2 powr of_int e\<bar>
                         \<le> (2::real) powr of_int e"
        using errR by (simp only: pe)
      moreover have "q' < 2 ^ 53" using q'hi no by simp
      ultimately show ?thesis using b sg q'lo by simp
    qed
  qed
qed

lemma sqrt_between:
  assumes "0 \<le> c - h" "(c - h) * (c - h) \<le> x" "x \<le> (c + h) * (c + h)" "0 \<le> c + h"
  shows "\<bar>sqrt x - c\<bar> \<le> (h::real)"
proof -
  have "c - h \<le> sqrt x" using assms(1,2) by (metis real_le_rsqrt power2_eq_square)
  moreover have "sqrt x \<le> c + h" using assms(3,4) by (metis real_le_lsqrt power2_eq_square)
  ultimately show ?thesis by (intro abs_leI) linarith+
qed

section \<open>Evaluation of the worked examples\<close>

lemmas world_eval =
  worldOf_def emptyState_def cacheHit_def cacheExpiry_def searchPosts_def directTry_def
  responseOk_def networkClass_def proxyTry_def searchWithCorsProxy_def

lemmas compose_eval =
  generateResponse_def sourceOf_def answerPartsOf_def cleanRendered_def cleanHtml_def
  optChain_def orEmpty_def bindE_def replaceAll_def numFalsy_def

lemma twin_ranked:
  "rankRelevantPosts examplePlatform (ascii ''abc'') twinPosts (Some 5) =
     [\<lparr> props = [(ascii ''title'', JObj [(ascii ''rendered'', JStr (ascii ''abc''))])],
        similarity_score = Fin 1 \<rparr>,
      \<lparr> props = [(ascii ''title'', JObj [(ascii ''rendered'', JStr (ascii ''abc''))])],
        similarity_score = Fin 1 \<rparr>]"
  by (simp add: rank_eval example_eval cosineSimilarity_single Let_def)

lemma twin_sources:
  "\<exists>text. generateResponse examplePlatform (ascii ''abc'')
            (rankRelevantPosts examplePlatform (ascii ''abc'') twinPosts (Some 5))
     = Inr \<lparr> answer = text,
             sources = [\<lparr> src_title = ascii ''abc'', src_link = JStr [],
                          src_similarity = Fin 1, src_date = [] \<rparr>,
                        \<lparr> src_title = ascii ''abc'', src_link = JStr [],
                          src_similarity = Fin 1, src_date = [] \<rparr>] \<rparr>"
  unfolding twin_ranked
  by (simp add: compose_eval examplePlatform_def ascii_def trim_def isSpace_def Let_def upt_rec)

lemma broken_rank: "rankTry examplePlatform (ascii ''abc'') brokenPosts 5 = Inl TypeError"
  by (simp add: rankTry_def brokenPosts_def postText_def bindE_def)

lemma other_rank: "rankTry examplePlatform (ascii ''abc'') otherPosts 5 = Inr []"
  by (simp add: rank_eval otherPosts_def example_eval cosineSimilarity_def cosineStep_triple
      numAt_def upt_rec Let_def)

text \<open>
  The rounding example on doubles, operation by operation: the vectors of the post text
  \<open>abc mno \<close> and of the query \<open>abc mno ghi\<close>, the three sums of the loop, the two square
  roots, their product and the quotient.
\<close>

lemmas double_eval = dOfNat_def roundDyadic_def bitLength_numeral inRange_def Let_def




lemma rounding_roots:
  "dsqrt (Dbl 5265070778967050 (- 57)) = Dbl 6886475266525727 (- 55)"
  "dsqrt (Dbl 5923204626337932 (- 56)) = Dbl 5164856449894296 (- 54)"
  by (simp_all add: double_eval floorSqrt.simps)


text \<open>
  Each quotient and each square root of the example is the double nearest to the exact
  result: it is within half a unit in the last place of it. For the sums and the products
  this is \<open>roundDyadic_nearest\<close>.
\<close>

lemma rounding_quotients_nearest:
  "2 * \<bar>dvalue (dOfNat 2) / dvalue (dOfNat 3) - dvalue (ddiv (dOfNat 2) (dOfNat 3))\<bar> \<le> 1 / 2 ^ 53"
  "2 * \<bar>dvalue (dOfNat 1) / dvalue (dOfNat 3) - dvalue (ddiv (dOfNat 1) (dOfNat 3))\<bar> \<le> 1 / 2 ^ 54"
  "dvalue (dOfNat 1) / dvalue (dOfNat 2) = dvalue (ddiv (dOfNat 1) (dOfNat 2))"
  "dvalue (dOfNat 2) / dvalue (dOfNat 2) = dvalue (ddiv (dOfNat 2) (dOfNat 2))"
  "2 * \<bar>dvalue (Dbl 7897606168450576 (- 57)) / dvalue (Dbl 7897606168450575 (- 57))
         - dvalue (ddiv (Dbl 7897606168450576 (- 57)) (Dbl 7897606168450575 (- 57)))\<bar> \<le> 1 / 2 ^ 52"
  by (simp_all add: double_eval)

lemma rounding_roots_nearest:
  "\<bar>sqrt (dvalue (Dbl 5265070778967050 (- 57))) - dvalue (dsqrt (Dbl 5265070778967050 (- 57)))\<bar>
     \<le> 1 / 2 ^ 56"
  "\<bar>sqrt (dvalue (Dbl 5923204626337932 (- 56))) - dvalue (dsqrt (Dbl 5923204626337932 (- 56)))\<bar>
     \<le> 1 / 2 ^ 55"
  unfolding rounding_roots by (rule sqrt_between; simp)+


section \<open>Claims about the vectorizer and the similarity\<close>

text \<open>
  Claim C8. For every pair of vectors of one length of which one has zero Euclidean norm,
  \<open>cosineSimilarity\<close> returns exactly 0, not \<open>NaN\<close> and not the result of a division by
  zero. The only call of \<open>cosineSimilarity\<close> pairs two vectors of one
  \<open>createTfIdfVectors\<close> call, which have one length: for these the result is 0 whenever
  all components of one of them are 0, as they are for the zero-length vectors of an empty
  vocabulary.
\<close>

theorem cosineSimilarity_zero_norm:
  "(length a = length b \<and> (euclideanNorm a = 0 \<or> euclideanNorm b = 0) \<longrightarrow>
      cosineSimilarity (map Fin a) (map Fin b) = Fin 0)
   \<and> (\<forall>u\<in>set (fst (createTfIdfVectors P documents)).
        \<forall>v\<in>set (fst (createTfIdfVectors P documents)).
          (\<forall>c\<in>set u. c = Fin 0) \<or> (\<forall>c\<in>set v. c = Fin 0) \<longrightarrow>
          cosineSimilarity u v = Fin 0)"
proof (intro conjI impI ballI)
  assume "length a = length b \<and> (euclideanNorm a = 0 \<or> euclideanNorm b = 0)"
  then show "cosineSimilarity (map Fin a) (map Fin b) = Fin 0"
    using cosineSimilarity_zero_left [of a "map Fin b"] cosineSimilarity_zero_right [of a b]
    by auto
next
  fix u v
  assume u: "u \<in> set (fst (createTfIdfVectors P documents))"
    and v: "v \<in> set (fst (createTfIdfVectors P documents))"
    and z: "(\<forall>c\<in>set u. c = Fin 0) \<or> (\<forall>c\<in>set v. c = Fin 0)"
  define D where "D = map (preprocessText P) documents"
  obtain wu where "u = map (\<lambda>w. Fin (termFreq wu w * invDocFreq D w))
                         (snd (createTfIdfVectors P documents))"
    using u unfolding vectors_shape [of P documents] D_def by auto
  then have "u = map Fin (map (\<lambda>w. termFreq wu w * invDocFreq D w)
                            (snd (createTfIdfVectors P documents)))"
    by simp
  then obtain f where uf: "u = map Fin (map f (snd (createTfIdfVectors P documents)))"
    by blast
  obtain wv where "v = map (\<lambda>w. Fin (termFreq wv w * invDocFreq D w))
                         (snd (createTfIdfVectors P documents))"
    using v unfolding vectors_shape [of P documents] D_def by auto
  then have "v = map Fin (map (\<lambda>w. termFreq wv w * invDocFreq D w)
                            (snd (createTfIdfVectors P documents)))"
    by simp
  then obtain g where vg: "v = map Fin (map g (snd (createTfIdfVectors P documents)))"
    by blast
  have "euclideanNorm (map f (snd (createTfIdfVectors P documents))) = 0
        \<or> euclideanNorm (map g (snd (createTfIdfVectors P documents))) = 0"
    using z by (auto simp: uf vg euclideanNorm_zero_iff)
  then show "cosineSimilarity u v = Fin 0"
    unfolding uf vg
    using cosineSimilarity_zero_left cosineSimilarity_zero_right
    by (metis length_map order_refl)
qed

text \<open>
  The theorem at an all-zero first vector, at an all-zero second vector, and at the two
  zero-length vectors of a corpus whose documents have no token of three characters.
\<close>

theorem cosineSimilarity_zero_norm_witness:
  "euclideanNorm [0, 0] = 0
   \<and> length [0, 0 :: real] = length [3, 4 :: real]
   \<and> cosineSimilarity (map Fin [0, 0]) (map Fin [3, 4]) = Fin 0
   \<and> cosineSimilarity (map Fin [3, 4]) (map Fin [0, 0]) = Fin 0
   \<and> fst (createTfIdfVectors examplePlatform [ascii ''a'', ascii ''b'']) = [[], []]
   \<and> cosineSimilarity [] [] = Fin 0"
proof -
  have e: "fst (createTfIdfVectors examplePlatform [ascii ''a'', ascii ''b'']) = [[], []]"
    by (simp add: example_eval)
  show ?thesis
    using e cosineSimilarity_zero_norm [of "[0, 0]" "[3, 4]" examplePlatform "[ascii ''a'', ascii ''b'']"]
      cosineSimilarity_zero_norm [of "[3, 4]" "[0, 0]" examplePlatform "[ascii ''a'', ascii ''b'']"]
    by (simp add: euclideanNorm_def)
qed

text \<open>
  Claim C7, as far as it holds. Every component of every vector of \<open>createTfIdfVectors\<close>
  is a finite real number, the product of the term frequency and the inverse document
  frequency. It is 0 for a term the document does not contain. For a term the document
  contains it is negative exactly when the term occurs in every document of the corpus, and
  non-negative otherwise.
\<close>

theorem tfidf_component:
  assumes "d < length documents" "j < length (snd (createTfIdfVectors P documents))"
  shows "let processedDocs = map (preprocessText P) documents;
             words = processedDocs ! d;
             w = snd (createTfIdfVectors P documents) ! j;
             c = fst (createTfIdfVectors P documents) ! d ! j
         in c = Fin (termFreq words w * invDocFreq processedDocs w)
            \<and> (w \<notin> set words \<longrightarrow> c = Fin 0)
            \<and> (w \<in> set words \<longrightarrow>
                 (jgt (Fin 0) c \<longleftrightarrow> docFreq processedDocs w = length processedDocs))"
proof -
  define D where "D = map (preprocessText P) documents"
  define w where "w = vocabularyOf D ! j"
  have j: "j < length (vocabularyOf D)"
    using assms(2) by (simp add: createTfIdfVectors_def tfIdfOfTokens_eq D_def)
  then have wv: "w \<in> set (concat D)"
    unfolding w_def using set_vocabularyOf [of D] nth_mem by blast
  have c: "fst (createTfIdfVectors P documents) ! d ! j = Fin (termFreq (D ! d) w * invDocFreq D w)"
    using assms(1) j by (simp add: createTfIdfVectors_def tfIdfOfTokens_eq D_def w_def)
  have N: "0 < length D"
    using assms(1) by (auto simp: D_def)
  have neg: "invDocFreq D w < 0 \<longleftrightarrow> docFreq D w = length D"
  proof -
    have "invDocFreq D w < 0 \<longleftrightarrow> real (length D) / real (1 + docFreq D w) < 1"
      unfolding invDocFreq_def using N by (intro ln_less_zero_iff) simp
    also have "\<dots> \<longleftrightarrow> real (length D) < real (1 + docFreq D w)"
      by simp
    also have "\<dots> \<longleftrightarrow> length D < 1 + docFreq D w"
      by (rule of_nat_less_iff)
    also have "\<dots> \<longleftrightarrow> docFreq D w = length D"
      using docFreq_le [of D w] by auto
    finally show ?thesis .
  qed
  have "jgt (Fin 0) (Fin (termFreq (D ! d) w * invDocFreq D w)) \<longleftrightarrow> docFreq D w = length D"
    if "w \<in> set (D ! d)"
    using termFreq_pos [OF that] neg by (simp add: mult_less_0_iff not_less [symmetric])
  then show ?thesis
    using c by (simp add: Let_def termFreq_unseen createTfIdfVectors_def tfIdfOfTokens_eq
        D_def [symmetric] w_def [symmetric])
qed

text \<open>The theorem at the first component of the first vector of two identical documents.\<close>

theorem tfidf_component_witness:
  "(0 :: nat) < length twinCorpus
   \<and> (0 :: nat) < length (snd (createTfIdfVectors examplePlatform twinCorpus))
   \<and> snd (createTfIdfVectors examplePlatform twinCorpus) ! 0 = ascii ''abc''
   \<and> ascii ''abc'' \<in> set (preprocessText examplePlatform (twinCorpus ! 0))
   \<and> docFreq (map (preprocessText examplePlatform) twinCorpus) (ascii ''abc'') = 2
   \<and> jgt (Fin 0) (fst (createTfIdfVectors examplePlatform twinCorpus) ! 0 ! 0)"
  using tfidf_component [of 0 twinCorpus 0 examplePlatform]
  by (simp add: example_eval)

text \<open>
  Claim C7 as stated fails: in a corpus of two identical documents the shared term has the
  inverse document frequency \<open>ln (2 / 3)\<close>, and both vectors have this negative number as
  their component.
\<close>

theorem tfidf_component_counterexample:
  "fst (createTfIdfVectors examplePlatform twinCorpus) = [[Fin (ln (2 / 3))], [Fin (ln (2 / 3))]]
   \<and> ln (2 / 3) < (0 :: real)"
  by (simp add: example_eval)




text \<open>
  Claim C9. For the vectors and the vocabulary of one \<open>createTfIdfVectors\<close> call, as
  \<open>rankRelevantPosts\<close> makes it: every vector has the length of the vocabulary and only
  finite components; every vocabulary term has a document frequency of at least 1 (and at most
  the document count, so the logarithm has a positive argument); a term frequency is
  computed only for a document with a positive token count; \<open>cosineSimilarity\<close> of two of
  the vectors reads no index out of range and yields a finite number, and so does every
  similarity the ranker computes between the last vector (the query's) and the others.
\<close>

theorem similarities_well_defined:
  assumes "(vs, vocabulary) = createTfIdfVectors P documents"
    and "processedDocs = map (preprocessText P) documents"
  shows "(\<forall>v\<in>set vs. length v = length vocabulary \<and> (\<forall>c\<in>set v. isFinite c))
       \<and> (\<forall>w\<in>set vocabulary. 1 \<le> docFreq processedDocs w
                               \<and> docFreq processedDocs w \<le> length processedDocs)
       \<and> (\<forall>words\<in>set processedDocs. \<forall>w\<in>set vocabulary.
             wordCountOf words w \<noteq> None \<longrightarrow> 0 < length words)
       \<and> (\<forall>a\<in>set vs. \<forall>b\<in>set vs.
             (\<forall>i<length a. i < length b) \<and> isFinite (cosineSimilarity a b))
       \<and> (vs \<noteq> [] \<longrightarrow>
             (\<forall>item\<in>set (similaritiesOf (last vs) (butlast vs) ps). isFinite (similarity item)))"
proof -
  have vs: "vs = fst (createTfIdfVectors P documents)"
    and vocab: "vocabulary = snd (createTfIdfVectors P documents)"
    using assms(1) by (metis fst_conv, metis snd_conv)
  have shape: "\<forall>v\<in>set vs. length v = length vocabulary \<and> (\<forall>c\<in>set v. isFinite c)"
    using vectors_finite [of _ P documents] by (simp add: vs vocab)
  have "vocabulary = vocabularyOf processedDocs"
    by (simp add: vocab assms(2) createTfIdfVectors_def tfIdfOfTokens_eq)
  then have df: "\<forall>w\<in>set vocabulary. 1 \<le> docFreq processedDocs w
                               \<and> docFreq processedDocs w \<le> length processedDocs"
    using docFreq_pos [of _ processedDocs] docFreq_le [of processedDocs]
    by (auto simp: set_vocabularyOf simp del: set_concat)
  have tf: "\<forall>words\<in>set processedDocs. \<forall>w\<in>set vocabulary.
             wordCountOf words w \<noteq> None \<longrightarrow> 0 < length words"
    by (auto simp: wordCountOf_eq split: if_splits)
  have cos: "\<forall>a\<in>set vs. \<forall>b\<in>set vs.
             (\<forall>i<length a. i < length b) \<and> isFinite (cosineSimilarity a b)"
  proof (intro ballI conjI)
    fix a b assume ab: "a \<in> set vs" "b \<in> set vs"
    then show "\<forall>i<length a. i < length b"
      using shape by simp
    show "isFinite (cosineSimilarity a b)"
      using similarity_unit [of a P documents b] ab by (auto simp: vs)
  qed
  have sims: "vs \<noteq> [] \<longrightarrow>
             (\<forall>item\<in>set (similaritiesOf (last vs) (butlast vs) ps). isFinite (similarity item))"
    using similaritiesOf_unit [OF vs] by (fastforce simp: isFinite_iff)
  show ?thesis
    using shape df tf cos sims by blast
qed

text \<open>The theorem at the corpus of two identical documents.\<close>

theorem similarities_well_defined_witness:
  "([[Fin (ln (2 / 3))], [Fin (ln (2 / 3))]], [ascii ''abc''])
     = createTfIdfVectors examplePlatform twinCorpus
   \<and> [[ascii ''abc''], [ascii ''abc'']] = map (preprocessText examplePlatform) twinCorpus
   \<and> length [Fin (ln (2 / 3))] = length [ascii ''abc'']
   \<and> isFinite (Fin (ln (2 / 3)))
   \<and> 1 \<le> docFreq [[ascii ''abc''], [ascii ''abc'']] (ascii ''abc'')
   \<and> isFinite (cosineSimilarity [Fin (ln (2 / 3))] [Fin (ln (2 / 3))])"
proof -
  have c: "([[Fin (ln (2 / 3))], [Fin (ln (2 / 3))]], [ascii ''abc''])
     = createTfIdfVectors examplePlatform twinCorpus"
    by (simp add: example_eval)
  have p: "[[ascii ''abc''], [ascii ''abc'']] = map (preprocessText examplePlatform) twinCorpus"
    by (simp add: example_eval)
  show ?thesis
    using c p similarities_well_defined [OF c p, of "[]"]
    by simp
qed

section \<open>Claims about the ranker\<close>

text \<open>
  Claim C3. \<open>topK\<close> is a count: an integer that is not negative, 5 when it is omitted;
  the only caller passes 5. The result of \<open>rankRelevantPosts\<close> is the image of a list of
  scored items that is in descending order of similarity, with equal similarities in the
  order of their original indices; every item has a similarity above 0.01 and is the post
  at its index; and the result has at most \<open>topK\<close> elements.
\<close>

theorem rank_order_threshold_topK:
  assumes "topK = (case topKArg of None \<Rightarrow> 5 | Some k \<Rightarrow> k)" and "0 \<le> topK"
  shows "\<exists>items.
           rankRelevantPosts P query posts topKArg = map toRanked items
           \<and> sorted_wrt rankedBefore items
           \<and> (\<forall>item\<in>set items. \<exists>r. similarity item = Fin r \<and> 1 / 100 < r)
           \<and> (\<forall>item\<in>set items. \<exists>ps. posts = JArr ps \<and> index item < length ps
                                      \<and> post item = Some (ps ! index item))
           \<and> int (length (rankRelevantPosts P query posts topKArg)) \<le> topK"
proof -
  consider (empty) "rankRelevantPosts P query posts topKArg = []"
    | (ranked) ps postTexts where
        "posts = JArr ps" "mapE (postText P) ps = Inr postTexts"
        "rankRelevantPosts P query posts topKArg =
           map toRanked
             (rankedItems topK
                (similaritiesOf
                   (last (fst (createTfIdfVectors P (postTexts @ [query]))))
                   (butlast (fst (createTfIdfVectors P (postTexts @ [query]))))
                   ps))"
    using rankRelevantPosts_cases [of P query posts topKArg] assms(1) by auto
  then show ?thesis
  proof cases
    case empty
    then show ?thesis using assms(2) by (intro exI [of _ "[]"]) simp
  next
    case ranked
    define vs where "vs = fst (createTfIdfVectors P (postTexts @ [query]))"
    define sims where "sims = similaritiesOf (last vs) (butlast vs) ps"
    define items where "items = rankedItems topK sims"
    have ne: "vs \<noteq> []" and len: "length (butlast vs) = length ps"
      using length_createTfIdfVectors [of P "postTexts @ [query]"] mapE_length [OF ranked(2)]
      by (auto simp: vs_def)
    have unit: "\<exists>r. similarity item = Fin r \<and> 0 \<le> r \<and> r \<le> 1" if "item \<in> set sims" for item
      using similaritiesOf_unit [OF vs_def ne] that by (simp add: sims_def)
    then have fin: "\<forall>x\<in>set sims. isFinite (similarity x)"
      by (auto simp: isFinite_iff)
    have sub: "set items \<subseteq> set sims"
      by (simp add: items_def set_rankedItems)
    have "rankRelevantPosts P query posts topKArg = map toRanked items"
      using ranked(3) by (simp add: items_def sims_def vs_def)
    moreover have "sorted_wrt rankedBefore items"
      unfolding items_def using fin by (rule rankedItems_sorted) (simp add: sims_def similaritiesOf_indices)
    moreover have "\<exists>r. similarity item = Fin r \<and> 1 / 100 < r" if "item \<in> set items" for item
    proof -
      have "item \<in> set sims" using sub that by auto
      then obtain r where "similarity item = Fin r" using unit by blast
      moreover have "jgt (similarity item) (Fin (1 / 100))"
        using that by (simp add: items_def rankedItems_threshold)
      ultimately show ?thesis by simp
    qed
    moreover have "\<exists>ps. posts = JArr ps \<and> index item < length ps \<and> post item = Some (ps ! index item)"
      if "item \<in> set items" for item
      using similaritiesOf_posts [OF _ len, of item "last vs"] sub that ranked(1)
      by (auto simp: sims_def)
    moreover have "int (length (map toRanked items)) \<le> topK"
      using assms(2) by (simp add: items_def rankedItems_length)
    ultimately show ?thesis by (intro exI [of _ items]) simp
  qed
qed

text \<open>
  The theorem at a ranking of two posts that both match the query with similarity 1, with
  the default \<open>topK\<close>; and the chain after the sort on the similarities 0.9, 0.2, 0.01, 0.5
  and 0.2, which keeps the indices 0, 3, 1 and 4 in this order.
\<close>

theorem rank_order_threshold_topK_witness:
  "(5 :: int) = (case (None :: int option) of None \<Rightarrow> 5 | Some k \<Rightarrow> k) \<and> (0 :: int) \<le> 5
   \<and> map similarity_score (rankRelevantPosts examplePlatform (ascii ''abc'') twinPosts None)
       = [Fin 1, Fin 1]
   \<and> map index (rankedItems 5
         [\<lparr> index = 0, similarity = Fin (9 / 10), post = None \<rparr>,
          \<lparr> index = 1, similarity = Fin (2 / 10), post = None \<rparr>,
          \<lparr> index = 2, similarity = Fin (1 / 100), post = None \<rparr>,
          \<lparr> index = 3, similarity = Fin (5 / 10), post = None \<rparr>,
          \<lparr> index = 4, similarity = Fin (2 / 10), post = None \<rparr>])
       = [0, 3, 1, 4]
   \<and> (\<exists>items.
         rankRelevantPosts examplePlatform (ascii ''abc'') twinPosts None = map toRanked items
         \<and> sorted_wrt rankedBefore items
         \<and> (\<forall>item\<in>set items. \<exists>r. similarity item = Fin r \<and> 1 / 100 < r)
         \<and> (\<forall>item\<in>set items. \<exists>ps. twinPosts = JArr ps \<and> index item < length ps
                                    \<and> post item = Some (ps ! index item))
         \<and> int (length (rankRelevantPosts examplePlatform (ascii ''abc'') twinPosts None)) \<le> 5)"
proof -
  have "map similarity_score (rankRelevantPosts examplePlatform (ascii ''abc'') twinPosts None)
       = [Fin 1, Fin 1]"
    by (simp add: rank_eval example_eval cosineSimilarity_single Let_def)
  moreover have "map index (rankedItems 5
         [\<lparr> index = 0, similarity = Fin (9 / 10), post = None \<rparr>,
          \<lparr> index = 1, similarity = Fin (2 / 10), post = None \<rparr>,
          \<lparr> index = 2, similarity = Fin (1 / 100), post = None \<rparr>,
          \<lparr> index = 3, similarity = Fin (5 / 10), post = None \<rparr>,
          \<lparr> index = 4, similarity = Fin (2 / 10), post = None \<rparr>])
       = [0, 3, 1, 4]"
    by (simp add: rankedItems_def sortBy_def sliceTo_def jsub_def)
  ultimately show ?thesis
    using rank_order_threshold_topK [of 5 None examplePlatform "ascii ''abc''" twinPosts]
    by simp
qed

section \<open>Claims about the transport\<close>

text \<open>
  Claim C4, as far as it holds. \<open>searchPosts\<close> does not look at the kind of the failure
  but at the message of the caught error. It turns to \<open>searchWithCorsProxy\<close> exactly when
  the \<open>try\<close> block fails with a message that contains \<open>CORS\<close>, \<open>NetworkError\<close> or
  \<open>Failed to fetch\<close>, be it a rejected request or a response whose body does not parse;
  the relay request is then issued unless the query has a lone surrogate. The message of a
  status outside 200 to 299 never contains one of the three strings: such a response, like
  every other failure whose message has none of them, makes \<open>searchPosts\<close> throw its own
  error without a second request, and \<open>processQuery\<close> answers with the technical-error
  response. \<open>searchWithCorsProxy\<close> returns the empty array whenever its \<open>try\<close> block
  throws: when the query cannot be encoded, when the request is rejected, when the envelope
  cannot be parsed, when the envelope has no payload, and when the payload cannot be parsed.
\<close>

theorem fallback_only_on_network_error:
  "(ProxyRequest query \<in> set (snd (searchPosts P W query))
      \<longleftrightarrow> (\<exists>m. directTry W query = Inl m \<and> networkClass m) \<and> wellFormed query)
   \<and> (\<forall>m. directTry W query = Inl m \<and> networkClass m \<longrightarrow>
         searchPosts P W query
           = (Inr (searchWithCorsProxy P W query), DirectRequest query # proxyRequests query))
   \<and> (\<forall>status m. fetchDirect W query = Response status (Inl m) \<and> responseOk status
                  \<and> networkClass m \<longrightarrow>
         fst (searchPosts P W query) = Inr (searchWithCorsProxy P W query))
   \<and> (\<forall>status body.
         fetchDirect W query = Response status body \<and> \<not> responseOk status \<longrightarrow>
         searchPosts P W query = (Inl (Error msgSearchFailed), [DirectRequest query]))
   \<and> (\<forall>m. directTry W query = Inl m \<and> \<not> networkClass m \<longrightarrow>
         searchPosts P W query = (Inl (Error msgSearchFailed), [DirectRequest query])
         \<and> (cacheHit W query st = None \<and> 3 \<le> length (trim query) \<longrightarrow>
              fst (processQuery P W query st) = Inr \<lparr> answer = msgTechnical, sources = [] \<rparr>))
   \<and> (\<forall>e. proxyTry P W query = Inl e \<longrightarrow> searchWithCorsProxy P W query = JArr [])
   \<and> (\<not> wellFormed query \<longrightarrow> searchWithCorsProxy P W query = JArr [])
   \<and> (\<forall>m. fetchProxy W query = Rejected m \<longrightarrow> searchWithCorsProxy P W query = JArr [])
   \<and> (\<forall>status m. fetchProxy W query = Response status (Inl m) \<longrightarrow>
         searchWithCorsProxy P W query = JArr [])
   \<and> (\<forall>status data contents.
         fetchProxy W query = Response status (Inr data)
         \<and> getProp data (ascii ''contents'') = Inr contents \<and> \<not> truthyOpt contents \<longrightarrow>
         searchWithCorsProxy P W query = JArr [])
   \<and> (\<forall>status data c e.
         fetchProxy W query = Response status (Inr data)
         \<and> getProp data (ascii ''contents'') = Inr (Some c) \<and> truthy c
         \<and> jsonParse P c = Inl e \<longrightarrow>
         searchWithCorsProxy P W query = JArr [])"
proof -
  have turn: "searchPosts P W query
           = (Inr (searchWithCorsProxy P W query), DirectRequest query # proxyRequests query)"
    if "directTry W query = Inl m" "networkClass m" for m
    using that by (simp add: searchPosts_def)
  have body: "fst (searchPosts P W query) = Inr (searchWithCorsProxy P W query)"
    if "fetchDirect W query = Response status (Inl m)" "responseOk status" "networkClass m"
    for status m
    using that by (simp add: searchPosts_def directTry_def)
  have http: "searchPosts P W query = (Inl (Error msgSearchFailed), [DirectRequest query])"
    if "fetchDirect W query = Response status body" "\<not> responseOk status" for status body
    using that http_status_not_networkClass [of status]
    by (intro searchPosts_fatal [of W query "ascii ''HTTP '' @ showNat status"])
       (simp_all add: directTry_def)
  have fatal: "fst (processQuery P W query st) = Inr \<lparr> answer = msgTechnical, sources = [] \<rparr>"
    if "directTry W query = Inl m" "\<not> networkClass m"
      "cacheHit W query st = None" "3 \<le> length (trim query)" for m
  proof -
    have "query \<noteq> []" using that(4) by (auto simp: trim_Nil)
    then show ?thesis
      using that searchPosts_fatal [OF that(1,2), of P]
      by (simp add: processQuery_def processTry_def)
  qed
  have p0: "searchWithCorsProxy P W query = JArr []" if "\<not> wellFormed query"
    using that by (simp add: searchWithCorsProxy_def proxyTry_def)
  have p1: "searchWithCorsProxy P W query = JArr []" if "fetchProxy W query = Rejected m" for m
    using that by (simp add: searchWithCorsProxy_def proxyTry_def)
  have p2: "searchWithCorsProxy P W query = JArr []"
    if "fetchProxy W query = Response status (Inl m)" for status m
    using that by (simp add: searchWithCorsProxy_def proxyTry_def)
  have p3: "searchWithCorsProxy P W query = JArr []"
    if "fetchProxy W query = Response status (Inr data)"
      "getProp data (ascii ''contents'') = Inr contents" "\<not> truthyOpt contents"
    for status data contents
    using that
    by (auto simp: searchWithCorsProxy_def proxyTry_def bindE_def truthyOpt_def
        split: option.splits)
  have p4: "searchWithCorsProxy P W query = JArr []"
    if "fetchProxy W query = Response status (Inr data)"
      "getProp data (ascii ''contents'') = Inr (Some c)" "truthy c" "jsonParse P c = Inl e"
    for status data c e
    using that by (simp add: searchWithCorsProxy_def proxyTry_def bindE_def)
  show ?thesis
    using proxy_request_iff [of query P W] turn body http searchPosts_fatal [of W query _ P] fatal
      searchWithCorsProxy_caught [of P W query] p0 p1 p2 p3 p4
    by blast
qed

text \<open>
  The theorem at a response with status 500, at a rejected request with the message of a
  failed fetch whose relay envelope is empty, at a relay payload that does not parse, and at
  a query that ends in a lone high surrogate.
\<close>

theorem fallback_only_on_network_error_witness:
  "searchPosts examplePlatform (worldOf (Response 500 (Inr JNull)) (Rejected []) 0 0) (ascii ''abc'')
     = (Inl (Error msgSearchFailed), [DirectRequest (ascii ''abc'')])
   \<and> fst (processQuery examplePlatform (worldOf (Response 500 (Inr JNull)) (Rejected []) 0 0)
            (ascii ''abc'') emptyState)
       = Inr \<lparr> answer = msgTechnical, sources = [] \<rparr>
   \<and> networkClass (ascii ''TypeError: Failed to fetch'')
   \<and> searchPosts examplePlatform
        (worldOf (Rejected (ascii ''TypeError: Failed to fetch'')) (Response 200 (Inr (JObj []))) 0 0)
        (ascii ''abc'')
       = (Inr (JArr []), [DirectRequest (ascii ''abc''), ProxyRequest (ascii ''abc'')])
   \<and> searchWithCorsProxy examplePlatform
        (worldOf (Rejected []) (Response 200 (Inr (JObj [(ascii ''contents'', JStr (ascii ''nope''))]))) 0 0)
        (ascii ''abc'')
       = JArr []
   \<and> searchPosts examplePlatform
        (worldOf (Rejected (ascii ''TypeError: Failed to fetch'')) (Response 200 (Inr (JObj []))) 0 0)
        (ascii ''abc'' @ [55357])
       = (Inr (JArr []), [DirectRequest (ascii ''abc'' @ [55357])])"
proof -
  let ?q = "ascii ''abc''"
  let ?W500 = "worldOf (Response 500 (Inr JNull)) (Rejected []) 0 0"
  let ?Wnet = "worldOf (Rejected (ascii ''TypeError: Failed to fetch'')) (Response 200 (Inr (JObj []))) 0 0"
  let ?Wbad = "worldOf (Rejected []) (Response 200 (Inr (JObj [(ascii ''contents'', JStr (ascii ''nope''))]))) 0 0"
  have n: "networkClass (ascii ''TypeError: Failed to fetch'')"
    by (simp add: networkClass_def ascii_def)
  have w: "wellFormed ?q" "\<not> wellFormed (?q @ [55357])"
    by (simp_all add: ascii_def isHighSurrogate_def isLowSurrogate_def)
  have d500: "directTry ?W500 ?q = Inl (ascii ''HTTP '' @ showNat 500)"
    by (simp add: directTry_def worldOf_def responseOk_def)
  have dnet: "directTry ?Wnet q = Inl (ascii ''TypeError: Failed to fetch'')" for q
    by (simp add: directTry_def worldOf_def)
  have empty: "searchWithCorsProxy examplePlatform ?Wnet ?q = JArr []"
    using w by (simp add: worldOf_def searchWithCorsProxy_def proxyTry_def bindE_def)
  show ?thesis
    using n w d500 dnet empty http_status_not_networkClass [of 500]
      fallback_only_on_network_error [of ?q examplePlatform ?W500 emptyState]
      fallback_only_on_network_error [of ?q examplePlatform ?Wbad emptyState]
      fallback_only_on_network_error [of ?q examplePlatform ?Wnet emptyState]
      fallback_only_on_network_error [of "?q @ [55357]" examplePlatform ?Wnet emptyState]
    by (simp add: worldOf_def responseOk_def cacheHit_def emptyState_def examplePlatform_def
        trim_def isSpace_def proxyRequests_def ascii_def isHighSurrogate_def isLowSurrogate_def)
qed

text \<open>
  Claim C4 as stated fails: the fallback is not tied to a failed request. Here the direct
  request succeeds with status 200 and only \<open>response.json()\<close> fails, with a message that
  quotes the start of a body that begins with \<open>CORS\<close>. The message contains \<open>CORS\<close>, so
  the failure does not propagate as a fatal error: the relay request is issued and its
  empty result is returned.
\<close>

theorem fallback_only_on_network_error_counterexample:
  "fetchDirect
     (worldOf (Response 200 (Inl (ascii ''Unexpected token C, CORS polic... is not valid JSON'')))
        (Response 200 (Inr (JObj []))) 0 0)
     (ascii ''abc'')
     = Response 200 (Inl (ascii ''Unexpected token C, CORS polic... is not valid JSON''))
   \<and> responseOk 200
   \<and> searchPosts examplePlatform
        (worldOf (Response 200 (Inl (ascii ''Unexpected token C, CORS polic... is not valid JSON'')))
           (Response 200 (Inr (JObj []))) 0 0)
        (ascii ''abc'')
       = (Inr (JArr []), [DirectRequest (ascii ''abc''), ProxyRequest (ascii ''abc'')])"
  by (simp add: worldOf_def responseOk_def searchPosts_def directTry_def networkClass_def
      searchWithCorsProxy_def proxyTry_def proxyRequests_def bindE_def ascii_def
      isHighSurrogate_def isLowSurrogate_def)

section \<open>Claims about the orchestrator\<close>

text \<open>
  Claim C1. \<open>processQuery\<close> never ends in a rejected promise: for every platform, world,
  question and state its result is a response, with the answer and the sources the response
  type has. When the cache has no fresh entry, every failure path ends in a fixed answer
  with no sources: a question that is too short, a failed retrieval, an empty retrieval,
  an error while ranking, and an error while composing.
\<close>

theorem processQuery_never_rejects:
  "\<exists>resp st'.
     processQuery P W question st = (Inr resp, st')
     \<and> (cacheHit W question st = None \<longrightarrow>
          (question = [] \<or> length (trim question) < 3 \<longrightarrow>
             resp = \<lparr> answer = msgTooShort, sources = [] \<rparr>)
          \<and> (\<not> (question = [] \<or> length (trim question) < 3) \<longrightarrow>
               (case fst (searchPosts P W question) of
                  Inl e \<Rightarrow> resp = \<lparr> answer = msgTechnical, sources = [] \<rparr>
                | Inr posts \<Rightarrow>
                    (\<not> truthy posts \<or> lengthIsZero posts \<longrightarrow>
                       resp = \<lparr> answer = msgNoPosts, sources = [] \<rparr>)
                    \<and> (truthy posts \<and> \<not> lengthIsZero posts \<longrightarrow>
                         ((\<exists>e. rankTry P question posts 5 = Inl e) \<longrightarrow>
                            resp = \<lparr> answer = msgNoRelevant, sources = [] \<rparr>)
                         \<and> ((\<exists>e. generateResponse P question
                                     (rankRelevantPosts P question posts (Some 5)) = Inl e) \<longrightarrow>
                              resp = \<lparr> answer = msgTechnical, sources = [] \<rparr>)))))"
proof (cases "cacheHit W question st")
  case (Some cached)
  then show ?thesis by (simp add: processQuery_def)
next
  case None
  show ?thesis
  proof (cases "question = [] \<or> length (trim question) < 3")
    case True
    then show ?thesis using None by (simp add: processQuery_def processTry_def)
  next
    case False
    obtain found issued where sp: "searchPosts P W question = (found, issued)"
      by (cases "searchPosts P W question")
    show ?thesis
    proof (cases found)
      case (Inl e)
      then show ?thesis
        using None False sp by (simp add: processQuery_def processTry_def)
    next
      case (Inr posts)
      show ?thesis
      proof (cases "\<not> truthy posts \<or> lengthIsZero posts")
        case True
        then show ?thesis
          using None False sp Inr by (auto simp: processQuery_def processTry_def)
      next
        case ok: False
        show ?thesis
        proof (cases "generateResponse P question (rankRelevantPosts P question posts (Some 5))")
          case (Inl e)
          then show ?thesis
            using None False sp Inr ok
            by (auto simp: processQuery_def processTry_def Let_def rank_empty_on_error
                generateResponse_def)
        next
          case composed: (Inr resp)
          then show ?thesis
            using None False sp Inr ok
            by (auto simp: processQuery_def processTry_def Let_def rank_empty_on_error
                generateResponse_def)
        qed
      qed
    qed
  qed
qed

text \<open>The theorem at a question whose retrieval fails with an error that is not network-class.\<close>

theorem processQuery_never_rejects_witness:
  "cacheHit (worldOf (Rejected (ascii ''boom'')) (Rejected []) 0 0) (ascii ''abc'') emptyState = None
   \<and> fst (searchPosts examplePlatform (worldOf (Rejected (ascii ''boom'')) (Rejected []) 0 0)
            (ascii ''abc'')) = Inl (Error msgSearchFailed)
   \<and> fst (processQuery examplePlatform (worldOf (Rejected (ascii ''boom'')) (Rejected []) 0 0)
            (ascii ''abc'') emptyState)
       = Inr \<lparr> answer = msgTechnical, sources = [] \<rparr>"
  using processQuery_never_rejects
    [of examplePlatform "worldOf (Rejected (ascii ''boom'')) (Rejected []) 0 0" "ascii ''abc''"
        emptyState]
  by (auto simp: world_eval ascii_def trim_def isSpace_def)

text \<open>
  Claim C5. A question whose trimmed length is below 3, with no fresh cache entry, gets the
  fixed guidance with no sources, and the state is the one before the call: no request was
  issued and nothing was stored in the cache.
\<close>

theorem short_question_guidance:
  assumes "cacheHit W question st = None" and "length (trim question) < 3"
  shows "processQuery P W question st = (Inr \<lparr> answer = msgTooShort, sources = [] \<rparr>, st)"
  using assms by (simp add: processQuery_def processTry_def)

text \<open>The theorem at a question of one letter between spaces, on a new system.\<close>

theorem short_question_guidance_witness:
  "cacheHit (worldOf (Rejected []) (Rejected []) 0 0) (ascii '' a '') emptyState = None
   \<and> length (trim (ascii '' a '')) = 1
   \<and> processQuery examplePlatform (worldOf (Rejected []) (Rejected []) 0 0) (ascii '' a '') emptyState
       = (Inr \<lparr> answer = msgTooShort, sources = [] \<rparr>, emptyState)
   \<and> requests emptyState = []"
  using short_question_guidance
    [of "worldOf (Rejected []) (Rejected []) 0 0" "ascii '' a ''" emptyState examplePlatform]
  by (simp add: cacheHit_def emptyState_def trim_def ascii_def isSpace_def)

text \<open>
  Claim C2. A successful call is one that computes a response and stores it: the cache has
  no fresh entry, the question is long enough, retrieval finds posts and the composer
  returns. After such a call the cache holds the response under the raw question with the
  time of the store. A later call for the same question whose lookup comes less than
  \<open>cacheExpiry\<close> (30 minutes in milliseconds) after that time returns the same response
  and leaves the state as it is, so it issues no request; so does a call whose lookup comes
  less than \<open>cacheExpiry\<close> after the lookup of the first call, when the clock did not
  run backwards during the first call. A call whose lookup comes
  \<open>cacheExpiry\<close> or more after that time misses the cache and issues the requests of
  \<open>searchPosts\<close> again, the direct request among them.
\<close>

theorem cached_response_reused:
  assumes "cacheHit W1 q st0 = None" and "3 \<le> length (trim q)"
    and "fst (searchPosts P W1 q) = Inr posts" and "truthy posts" and "\<not> lengthIsZero posts"
    and "generateResponse P q (rankRelevantPosts P q posts (Some 5)) = Inr resp"
    and "st1 = snd (processQuery P W1 q st0)"
  shows "processQuery P W1 q st0 = (Inr resp, st1)
       \<and> queryCache st1 q = Some \<lparr> response = resp, timestamp = nowAtStore W1 \<rparr>
       \<and> (nowAtLookup W2 - nowAtStore W1 < cacheExpiry \<longrightarrow>
            processQuery P2 W2 q st1 = (Inr resp, st1))
       \<and> (nowAtLookup W1 \<le> nowAtStore W1 \<and> nowAtLookup W2 - nowAtLookup W1 < cacheExpiry \<longrightarrow>
            processQuery P2 W2 q st1 = (Inr resp, st1))
       \<and> (cacheExpiry \<le> nowAtLookup W2 - nowAtStore W1 \<longrightarrow>
            cacheHit W2 q st1 = None
            \<and> requests (snd (processQuery P2 W2 q st1))
                = requests st1 @ snd (searchPosts P2 W2 q)
            \<and> DirectRequest q \<in> set (snd (searchPosts P2 W2 q)))"
proof -
  have first: "processQuery P W1 q st0 =
      (Inr resp,
       \<lparr> queryCache = (queryCache st0)(q \<mapsto> \<lparr> response = resp, timestamp = nowAtStore W1 \<rparr>),
         requests = requests st0 @ snd (searchPosts P W1 q) \<rparr>)"
    using assms(1) processTry_stored [OF assms(2-6), of st0]
    by (simp add: processQuery_def)
  then have entry: "queryCache st1 q = Some \<lparr> response = resp, timestamp = nowAtStore W1 \<rparr>"
    by (simp add: assms(7))
  have hit: "processQuery P2 W2 q st1 = (Inr resp, st1)"
    if "nowAtLookup W2 - nowAtStore W1 < cacheExpiry"
    using entry that by (rule processQuery_hit)
  have miss: "cacheHit W2 q st1 = None" if "cacheExpiry \<le> nowAtLookup W2 - nowAtStore W1"
    using entry that by (simp add: cacheHit_def)
  have again: "requests (snd (processQuery P2 W2 q st1))
                = requests st1 @ snd (searchPosts P2 W2 q)"
    if "cacheExpiry \<le> nowAtLookup W2 - nowAtStore W1"
    using miss [OF that] assms(2) by (rule processQuery_miss_requests)
  have "DirectRequest q \<in> set (snd (searchPosts P2 W2 q))"
    using searchPosts_requests [of P2 W2 q] by auto
  moreover have "processQuery P2 W2 q st1 = (Inr resp, st1)"
    if "nowAtLookup W1 \<le> nowAtStore W1" "nowAtLookup W2 - nowAtLookup W1 < cacheExpiry"
    using that by (intro hit) linarith
  ultimately show ?thesis
    using first entry hit miss again by (simp add: assms(7))
qed

text \<open>
  The theorem at a question that finds two posts at time 10, asked again one millisecond
  before and exactly at the expiry.
\<close>

theorem cached_response_reused_witness:
  "\<exists>resp.
     length (sources resp) = 2
     \<and> cacheHit (worldOf (Response 200 (Inr twinPosts)) (Rejected []) 0 10) (ascii ''abc'')
          emptyState = None
     \<and> processQuery examplePlatform (worldOf (Response 200 (Inr twinPosts)) (Rejected []) 0 10)
          (ascii ''abc'') emptyState
         = (Inr resp,
            \<lparr> queryCache = [ascii ''abc'' \<mapsto> \<lparr> response = resp, timestamp = 10 \<rparr>],
              requests = [DirectRequest (ascii ''abc'')] \<rparr>)
     \<and> processQuery examplePlatform (worldOf (Rejected []) (Rejected []) 1800009 1800009)
          (ascii ''abc'')
          \<lparr> queryCache = [ascii ''abc'' \<mapsto> \<lparr> response = resp, timestamp = 10 \<rparr>],
            requests = [DirectRequest (ascii ''abc'')] \<rparr>
         = (Inr resp,
            \<lparr> queryCache = [ascii ''abc'' \<mapsto> \<lparr> response = resp, timestamp = 10 \<rparr>],
              requests = [DirectRequest (ascii ''abc'')] \<rparr>)
     \<and> requests (snd (processQuery examplePlatform
          (worldOf (Rejected []) (Rejected []) 1800010 1800010) (ascii ''abc'')
          \<lparr> queryCache = [ascii ''abc'' \<mapsto> \<lparr> response = resp, timestamp = 10 \<rparr>],
            requests = [DirectRequest (ascii ''abc'')] \<rparr>))
         = [DirectRequest (ascii ''abc''), DirectRequest (ascii ''abc'')]"
proof -
  let ?W1 = "worldOf (Response 200 (Inr twinPosts)) (Rejected []) 0 10"
  let ?q = "ascii ''abc''"
  obtain resp where
    g: "generateResponse examplePlatform ?q
          (rankRelevantPosts examplePlatform ?q twinPosts (Some 5)) = Inr resp"
    and n: "length (sources resp) = 2"
    using twin_sources by fastforce
  have miss: "cacheHit ?W1 ?q emptyState = None"
    by (simp add: world_eval)
  have long: "3 \<le> length (trim ?q)"
    by (simp add: ascii_def trim_def isSpace_def)
  have found: "fst (searchPosts examplePlatform ?W1 ?q) = Inr twinPosts"
    by (simp add: world_eval)
  have posts: "truthy twinPosts" "\<not> lengthIsZero twinPosts"
    by (simp_all add: twinPosts_def)
  have reqs: "snd (searchPosts examplePlatform ?W1 ?q) = [DirectRequest ?q]"
    by (simp add: world_eval)
  have first: "processQuery examplePlatform ?W1 ?q emptyState =
      (Inr resp,
       \<lparr> queryCache = [?q \<mapsto> \<lparr> response = resp, timestamp = 10 \<rparr>],
         requests = [DirectRequest ?q] \<rparr>)"
    using miss processTry_stored [OF long found posts g, of emptyState] reqs
    by (simp add: processQuery_def) (simp add: worldOf_def emptyState_def)
  have again: "snd (searchPosts examplePlatform
       (worldOf (Rejected []) (Rejected []) 1800010 1800010) ?q) = [DirectRequest ?q]"
    by (simp add: world_eval ascii_def)
  show ?thesis
    using n miss first again
      cached_response_reused [OF miss long found posts g refl,
        of "worldOf (Rejected []) (Rejected []) 1800009 1800009" examplePlatform]
      cached_response_reused [OF miss long found posts g refl,
        of "worldOf (Rejected []) (Rejected []) 1800010 1800010" examplePlatform]
    by (intro exI [of _ resp]) (simp add: worldOf_def cacheExpiry_def)
qed

text \<open>
  Claim C10. When retrieval finds posts but the ranking is empty, because the \<open>try\<close> block
  of \<open>rankRelevantPosts\<close> throws or because it returns no item, the answer "no relevant
  information found" with no sources is returned and stored in the cache under the raw
  question. The same question asked again before the expiry gets this answer from the cache
  and the state stays as it is, so no request is issued.
\<close>

theorem negative_answer_cached:
  assumes "cacheHit W1 q st0 = None" and "3 \<le> length (trim q)"
    and "fst (searchPosts P W1 q) = Inr posts" and "truthy posts" and "\<not> lengthIsZero posts"
    and "(\<exists>e. rankTry P q posts 5 = Inl e) \<or> rankTry P q posts 5 = Inr []"
    and "st1 = snd (processQuery P W1 q st0)"
  shows "processQuery P W1 q st0 = (Inr \<lparr> answer = msgNoRelevant, sources = [] \<rparr>, st1)
       \<and> queryCache st1 q
           = Some \<lparr> response = \<lparr> answer = msgNoRelevant, sources = [] \<rparr>,
                    timestamp = nowAtStore W1 \<rparr>
       \<and> (nowAtLookup W2 - nowAtStore W1 < cacheExpiry \<longrightarrow>
            processQuery P2 W2 q st1 = (Inr \<lparr> answer = msgNoRelevant, sources = [] \<rparr>, st1))"
proof -
  have "rankRelevantPosts P q posts (Some 5) = []"
    using assms(4-6) by (auto simp: rankRelevantPosts_def)
  then have composed: "generateResponse P q (rankRelevantPosts P q posts (Some 5))
      = Inr \<lparr> answer = msgNoRelevant, sources = [] \<rparr>"
    by (simp add: generateResponse_def)
  have first: "processQuery P W1 q st0 =
      (Inr \<lparr> answer = msgNoRelevant, sources = [] \<rparr>,
       \<lparr> queryCache = (queryCache st0)(q \<mapsto>
             \<lparr> response = \<lparr> answer = msgNoRelevant, sources = [] \<rparr>, timestamp = nowAtStore W1 \<rparr>),
         requests = requests st0 @ snd (searchPosts P W1 q) \<rparr>)"
    using assms(1) processTry_stored [OF assms(2-5) composed, of st0]
    by (simp add: processQuery_def)
  then have entry: "queryCache st1 q
           = Some \<lparr> response = \<lparr> answer = msgNoRelevant, sources = [] \<rparr>,
                    timestamp = nowAtStore W1 \<rparr>"
    by (simp add: assms(7))
  have "processQuery P2 W2 q st1 = (Inr \<lparr> answer = msgNoRelevant, sources = [] \<rparr>, st1)"
    if "nowAtLookup W2 - nowAtStore W1 < cacheExpiry"
    using entry that by (rule processQuery_hit)
  then show ?thesis
    using first entry by (simp add: assms(7))
qed

text \<open>
  The theorem at a retrieval whose only element is \<open>null\<close>, so that scoring throws, and
  at a retrieval of one post that shares no token with the question.
\<close>

theorem negative_answer_cached_witness:
  "cacheHit (worldOf (Response 200 (Inr brokenPosts)) (Rejected []) 0 10) (ascii ''abc'')
     emptyState = None
   \<and> rankTry examplePlatform (ascii ''abc'') brokenPosts 5 = Inl TypeError
   \<and> rankTry examplePlatform (ascii ''abc'') otherPosts 5 = Inr []
   \<and> processQuery examplePlatform (worldOf (Response 200 (Inr brokenPosts)) (Rejected []) 0 10)
        (ascii ''abc'') emptyState
       = (Inr \<lparr> answer = msgNoRelevant, sources = [] \<rparr>,
          \<lparr> queryCache = [ascii ''abc'' \<mapsto>
               \<lparr> response = \<lparr> answer = msgNoRelevant, sources = [] \<rparr>, timestamp = 10 \<rparr>],
            requests = [DirectRequest (ascii ''abc'')] \<rparr>)
   \<and> processQuery examplePlatform (worldOf (Response 200 (Inr otherPosts)) (Rejected []) 0 10)
        (ascii ''abc'') emptyState
       = (Inr \<lparr> answer = msgNoRelevant, sources = [] \<rparr>,
          \<lparr> queryCache = [ascii ''abc'' \<mapsto>
               \<lparr> response = \<lparr> answer = msgNoRelevant, sources = [] \<rparr>, timestamp = 10 \<rparr>],
            requests = [DirectRequest (ascii ''abc'')] \<rparr>)
   \<and> processQuery examplePlatform (worldOf (Rejected []) (Rejected []) 1800009 1800009)
        (ascii ''abc'')
        \<lparr> queryCache = [ascii ''abc'' \<mapsto>
             \<lparr> response = \<lparr> answer = msgNoRelevant, sources = [] \<rparr>, timestamp = 10 \<rparr>],
          requests = [DirectRequest (ascii ''abc'')] \<rparr>
       = (Inr \<lparr> answer = msgNoRelevant, sources = [] \<rparr>,
          \<lparr> queryCache = [ascii ''abc'' \<mapsto>
               \<lparr> response = \<lparr> answer = msgNoRelevant, sources = [] \<rparr>, timestamp = 10 \<rparr>],
            requests = [DirectRequest (ascii ''abc'')] \<rparr>)"
proof -
  let ?q = "ascii ''abc''"
  let ?W = "\<lambda>posts. worldOf (Response 200 (Inr posts)) (Rejected []) 0 10"
  let ?st1 = "\<lparr> queryCache = [?q \<mapsto>
               \<lparr> response = \<lparr> answer = msgNoRelevant, sources = [] \<rparr>, timestamp = 10 \<rparr>],
            requests = [DirectRequest ?q] \<rparr>"
  have miss: "cacheHit (?W posts) ?q emptyState = None" for posts
    by (simp add: world_eval)
  have long: "3 \<le> length (trim ?q)"
    by (simp add: ascii_def trim_def isSpace_def)
  have found: "fst (searchPosts examplePlatform (?W posts) ?q) = Inr posts" for posts
    by (simp add: world_eval)
  have st: "snd (processQuery examplePlatform (?W posts) ?q emptyState) = ?st1"
    if "truthy posts" "\<not> lengthIsZero posts"
      "generateResponse examplePlatform ?q (rankRelevantPosts examplePlatform ?q posts (Some 5))
         = Inr \<lparr> answer = msgNoRelevant, sources = [] \<rparr>" for posts
    using miss [of posts] processTry_stored [OF long found that, of emptyState]
    by (simp add: processQuery_def) (simp add: world_eval)
  have b: "snd (processQuery examplePlatform (?W brokenPosts) ?q emptyState) = ?st1"
    by (rule st) (simp_all add: brokenPosts_def rankRelevantPosts_def broken_rank [unfolded brokenPosts_def]
        generateResponse_def)
  have o: "snd (processQuery examplePlatform (?W otherPosts) ?q emptyState) = ?st1"
    by (rule st) (simp_all add: otherPosts_def rankRelevantPosts_def other_rank [unfolded otherPosts_def]
        generateResponse_def)
  show ?thesis
    using miss [of brokenPosts] broken_rank other_rank
      negative_answer_cached [OF miss long found _ _ _ b [symmetric],
        of "worldOf (Rejected []) (Rejected []) 1800009 1800009" examplePlatform]
      negative_answer_cached [OF miss long found _ _ _ o [symmetric],
        of "worldOf (Rejected []) (Rejected []) 1800009 1800009" examplePlatform]
    by (simp add: brokenPosts_def otherPosts_def worldOf_def cacheExpiry_def)
qed

end
